theory Spec2Isabelle
  imports Main
begin

section \<open>Strings\<close>

text \<open>
  A JavaScript string is modelled as the list of its UTF-16 code units, for the
  strings whose code units are all below 256 (the Latin-1 range): one \<^typ>\<open>char\<close>
  per code unit, so \<open>length\<close> is the string's \<open>.length\<close>.  On that range
  \<open>toLowerCase\<close> moves \<open>A..Z\<close> and \<open>U+00C0..U+00DE\<close> (without the
  multiplication sign \<open>U+00D7\<close>) up by 32, which sets bit 5 of the code unit,
  and leaves everything else alone.  The white space of \<open>trim\<close> and of the
  regular-expression class \<open>\s\<close> is TAB, LF, VT, FF, CR, SPACE and NBSP.
\<close>

definition isUpper :: "char \<Rightarrow> bool" where
  "isUpper c = (let n = (of_char c :: nat) in
     (65 \<le> n \<and> n \<le> 90) \<or> (192 \<le> n \<and> n \<le> 222 \<and> n \<noteq> 215))"

definition lowerChar :: "char \<Rightarrow> char" where
  "lowerChar c = (if isUpper c
     then (case c of Char b0 b1 b2 b3 b4 b5 b6 b7 \<Rightarrow> Char b0 b1 b2 b3 b4 True b6 b7)
     else c)"

definition toLowerCase :: "string \<Rightarrow> string" where
  "toLowerCase s = map lowerChar s"

definition isSpace :: "char \<Rightarrow> bool" where
  "isSpace c = (c \<in> set [CHR 0x09, CHR 0x0A, CHR 0x0B, CHR 0x0C, CHR 0x0D, CHR '' '', CHR 0xA0])"

definition trim :: "string \<Rightarrow> string" where
  "trim s = rev (dropWhile isSpace (rev (dropWhile isSpace s)))"

fun startsWith :: "string \<Rightarrow> string \<Rightarrow> bool" where
  "startsWith s [] = True"
| "startsWith [] (y # ys) = False"
| "startsWith (x # xs) (y # ys) = (x = y \<and> startsWith xs ys)"

text \<open>\<open>s.includes(t)\<close>: \<open>t\<close> occurs in \<open>s\<close> as a contiguous substring.\<close>

fun includes_str :: "string \<Rightarrow> string \<Rightarrow> bool" where
  "includes_str [] t = (t = [])"
| "includes_str (x # xs) t = (startsWith (x # xs) t \<or> includes_str xs t)"

text \<open>
  \<open>s.split(/\s+/)\<close>: the pieces between maximal runs of white space.  As in
  JavaScript a leading or trailing run leaves an empty piece at that end, and the
  empty string splits into one empty piece.
\<close>

function splitWs :: "string \<Rightarrow> string \<Rightarrow> string list" where
  "splitWs cur [] = [rev cur]"
| "splitWs cur (x # xs) =
     (if isSpace x then rev cur # splitWs [] (dropWhile isSpace xs)
      else splitWs (x # cur) xs)"
  by pat_completeness auto
termination
  by (relation "measure (\<lambda>(cur, s). length s)")
     (auto simp: le_imp_less_Suc length_dropWhile_le)

definition split_ws :: "string \<Rightarrow> string list" where
  "split_ws s = splitWs [] s"

fun join :: "string \<Rightarrow> string list \<Rightarrow> string" where
  "join sep [] = []"
| "join sep [x] = x"
| "join sep (x # y # ys) = x @ sep @ join sep (y # ys)"

text \<open>A number in a template literal: the decimal digits of a natural number.\<close>

fun string_of_nat :: "nat \<Rightarrow> string" where
  "string_of_nat n =
     (if n < 10 then [''0123456789'' ! n]
      else string_of_nat (n div 10) @ [''0123456789'' ! (n mod 10)])"

declare string_of_nat.simps [simp del]

text \<open>
  \<open>parseInt\<close> on a capture of \<open>\d+\<close>: the value of the leading decimal digits,
  and \<open>NaN\<close> (here \<open>None\<close>) when there is none, as for \<open>undefined\<close>.  The
  source passes it nothing but such captures, so sign, leading white space and radix
  prefixes do not arise.  The value is exact here; JavaScript rounds it above
  \<open>2^53\<close>, where it is used as an index only and lies beyond the end of every
  array (an array has fewer than \<open>2^32\<close> elements) rounded or not.
\<close>

definition digitVal :: "char \<Rightarrow> int" where
  "digitVal c = int (of_char c) - 48"

definition isDigit :: "char \<Rightarrow> bool" where
  "isDigit c = (c \<in> set ''0123456789'')"

definition parseInt :: "string option \<Rightarrow> int option" where
  "parseInt g =
     (case g of None \<Rightarrow> None
      | Some s \<Rightarrow>
          (case takeWhile isDigit s of [] \<Rightarrow> None
           | d # ds \<Rightarrow> Some (foldl (\<lambda>n c. 10 * n + digitVal c) 0 (d # ds))))"

text \<open>
  \<open>xs[i]\<close> for a number \<open>i\<close>: the element when \<open>0 \<le> i < xs.length\<close>, and
  \<open>undefined\<close> (\<open>None\<close>) otherwise, also for \<open>NaN\<close>.
\<close>

definition js_nth :: "'a list \<Rightarrow> int option \<Rightarrow> 'a option" where
  "js_nth xs i =
     (case i of None \<Rightarrow> None
      | Some j \<Rightarrow> if 0 \<le> j \<and> j < int (length xs) then Some (xs ! nat j) else None)"

section \<open>Regular expressions\<close>

text \<open>
  The fragment of JavaScript regular expressions that the parser uses, with the
  backtracking semantics of the language: alternatives are tried left to right,
  a greedy quantifier tries one more iteration before it tries to stop, a lazy one
  the other way round, and an iteration that consumes nothing is rejected.
  \<open>Star True\<close> is the greedy \<open>*\<close> and \<open>Star False\<close> the lazy \<open>*?\<close>;
  \<open>Eol\<close> is \<open>$\<close> without the multiline flag; \<open>Dot\<close> matches everything
  but LF and CR.  The flag \<open>ci\<close> is the \<open>/i\<close> flag: with it a literal
  matches the characters that differ from it in case only.  \<open>Group i r\<close> is the
  \<open>i\<close>-th capturing group; the groups without a number in the patterns below are
  the non-capturing ones.  No pattern of the source has a capturing group inside a
  quantifier, so the reset of captures at each iteration is not modelled.
\<close>

datatype atom = Lit char | Dot | Space | Digit | OneOf "char list" | NoneOf "char list"

datatype rx = Atom atom | Empty | Eol | Seq rx rx | Alt rx rx | Star bool rx | Group nat rx

fun atom_ok :: "bool \<Rightarrow> atom \<Rightarrow> char \<Rightarrow> bool" where
  "atom_ok ci (Lit a) x = (if ci then lowerChar x = lowerChar a else x = a)"
| "atom_ok ci Dot x = (x \<noteq> CHR 0x0A \<and> x \<noteq> CHR 0x0D)"
| "atom_ok ci Space x = isSpace x"
| "atom_ok ci Digit x = isDigit x"
| "atom_ok ci (OneOf cs) x = (x \<in> set cs)"
| "atom_ok ci (NoneOf cs) x = (x \<notin> set cs)"

type_synonym caps = "nat \<Rightarrow> string option"

text \<open>
  \<open>rx_m ci r s c k\<close> matches \<open>r\<close> at the front of \<open>s\<close> with the captures \<open>c\<close>
  so far and hands the rest of the input and the new captures to the continuation
  \<open>k\<close>; when the continuation fails the next way of matching \<open>r\<close> is tried.
\<close>

function (sequential) rx_m ::
  "bool \<Rightarrow> rx \<Rightarrow> string \<Rightarrow> caps \<Rightarrow> (string \<Rightarrow> caps \<Rightarrow> caps option) \<Rightarrow> caps option" where
  "rx_m ci (Atom a) [] c k = None"
| "rx_m ci (Atom a) (x # xs) c k = (if atom_ok ci a x then k xs c else None)"
| "rx_m ci Empty s c k = k s c"
| "rx_m ci Eol s c k = (if s = [] then k s c else None)"
| "rx_m ci (Seq r1 r2) s c k = rx_m ci r1 s c (\<lambda>s' c'. rx_m ci r2 s' c' k)"
| "rx_m ci (Alt r1 r2) s c k =
     (case rx_m ci r1 s c k of Some res \<Rightarrow> Some res | None \<Rightarrow> rx_m ci r2 s c k)"
| "rx_m ci (Star True r) s c k =
     (case rx_m ci r s c
             (\<lambda>s' c'. if length s' < length s then rx_m ci (Star True r) s' c' k else None)
      of Some res \<Rightarrow> Some res | None \<Rightarrow> k s c)"
| "rx_m ci (Star False r) s c k =
     (case k s c of Some res \<Rightarrow> Some res
      | None \<Rightarrow>
          rx_m ci r s c
            (\<lambda>s' c'. if length s' < length s then rx_m ci (Star False r) s' c' k else None))"
| "rx_m ci (Group i r) s c k =
     rx_m ci r s c (\<lambda>s' c'. k s' (c'(i \<mapsto> take (length s - length s') s)))"
  by pat_completeness auto
termination
  by (relation "inv_image (measure size <*lex*> measure length) (\<lambda>(ci, r, s, c, k). (r, s))")
     auto

text \<open>
  \<open>s.match(r)\<close> without the global flag: the captures of the first match, trying
  the start positions from left to right; \<open>None\<close> is \<open>null\<close>.  A capture that
  took no part in the match is \<open>None\<close> (\<open>undefined\<close>).
\<close>

fun rx_exec :: "bool \<Rightarrow> rx \<Rightarrow> string \<Rightarrow> caps option" where
  "rx_exec ci r [] = rx_m ci r [] Map.empty (\<lambda>s' c'. Some c')"
| "rx_exec ci r (x # xs) =
     (case rx_m ci r (x # xs) Map.empty (\<lambda>s' c'. Some c') of
        Some c \<Rightarrow> Some c
      | None \<Rightarrow> rx_exec ci r xs)"

text \<open>
  \<open>s.replace(r, '')\<close> with the global flag: every match is cut out, scanning from
  the left; capture 0 is the whole match.
\<close>

function rx_remove_all :: "bool \<Rightarrow> rx \<Rightarrow> string \<Rightarrow> string" where
  "rx_remove_all ci r [] = []"
| "rx_remove_all ci r (x # xs) =
     (case rx_m ci (Group 0 r) (x # xs) Map.empty (\<lambda>s' c'. Some c') of
        None \<Rightarrow> x # rx_remove_all ci r xs
      | Some c \<Rightarrow>
          (case c 0 of
             None \<Rightarrow> x # rx_remove_all ci r xs
           | Some g \<Rightarrow>
               if g = [] then x # rx_remove_all ci r xs
               else rx_remove_all ci r (drop (length g) (x # xs))))"
  by pat_completeness auto
termination
  by (relation "measure (\<lambda>(ci, r, s). length s)") auto

text \<open>Building blocks: a literal word, a list of alternatives, \<open>+\<close>, \<open>+?\<close> and \<open>?\<close>.\<close>

fun str :: "string \<Rightarrow> rx" where
  "str [] = Empty"
| "str [x] = Atom (Lit x)"
| "str (x # y # ys) = Seq (Atom (Lit x)) (str (y # ys))"

fun alts :: "rx list \<Rightarrow> rx" where
  "alts [] = Empty"
| "alts [r] = r"
| "alts (r # q # rs) = Alt r (alts (q # rs))"

definition words :: "string list \<Rightarrow> rx" where
  "words ws = alts (map str ws)"

definition oneOrMore :: "rx \<Rightarrow> rx" where
  "oneOrMore r = Seq r (Star True r)"

definition oneOrMoreLazy :: "rx \<Rightarrow> rx" where
  "oneOrMoreLazy r = Seq r (Star False r)"

definition optional :: "rx \<Rightarrow> rx" where
  "optional r = Alt r Empty"

fun seqs :: "rx list \<Rightarrow> rx" where
  "seqs [] = Empty"
| "seqs [r] = r"
| "seqs (r # q # rs) = Seq r (seqs (q # rs))"


section \<open>The data model\<close>

text \<open>
  The node view that the caller hands to the parser, \<open>{ id, label, index }\<close>, and
  the command of \<open>types/flow.ts\<close>.  The field \<open>id\<close> is written \<open>id'\<close>.  An
  optional field of the command is an \<open>option\<close>; \<open>None\<close> is an absent field.
\<close>

record NodeRef =
  id' :: string
  label :: string
  index :: int

datatype cmd_type =
  add_node | delete_node | update_node | connect_nodes | disconnect_nodes | explain | unknown

record AICommand =
  type :: cmd_type
  nodeId :: "string option"
  nodeLabel :: "string option"
  sourceNodeId :: "string option"
  targetNodeId :: "string option"
  edgeId :: "string option"
  message :: "string option"

text \<open>The object literal \<open>{ type: t }\<close>, to which the other fields are added.\<close>

definition cmd :: "cmd_type \<Rightarrow> AICommand" where
  "cmd t = \<lparr>type = t, nodeId = None, nodeLabel = None, sourceNodeId = None,
     targetNodeId = None, edgeId = None, message = None\<rparr>"

text \<open>An optional string in a condition: absent and empty are both false.\<close>

definition truthy :: "string option \<Rightarrow> bool" where
  "truthy x = (case x of None \<Rightarrow> False | Some s \<Rightarrow> s \<noteq> [])"

text \<open>The only exception the parser could raise: a method call on \<open>undefined\<close>.\<close>

datatype error = TypeError

section \<open>The patterns of the rule-based parser\<close>

definition quote :: rx where
  "quote = Atom (OneOf [CHR 0x22, CHR 0x27])"

definition notQuote :: rx where
  "notQuote = Atom (NoneOf [CHR 0x22, CHR 0x27])"

definition anything :: rx where
  "anything = Star True (Atom Dot)"

definition spaces :: rx where
  "spaces = oneOrMore (Atom Space)"

definition nodeWord :: rx where
  "nodeWord = words [''node'', ''step'', ''state'']"

text \<open>\<^verbatim>\<open>/(add|create|new|make|insert).*(node|step|state)/\<close>\<close>

definition addTrigger :: rx where
  "addTrigger = seqs [Group 1 (words [''add'', ''create'', ''new'', ''make'', ''insert'']),
     anything, Group 2 nodeWord]"

text \<open>\<^verbatim>\<open>/(?:called|named|with.*label|that.*says|saying|with.*text)\s+["']?([^"']+)["']?/i\<close>\<close>

definition addLabel1 :: rx where
  "addLabel1 = seqs [
     alts [str ''called'', str ''named'', seqs [str ''with'', anything, str ''label''],
           seqs [str ''that'', anything, str ''says''], str ''saying'',
           seqs [str ''with'', anything, str ''text'']],
     spaces, optional quote, Group 1 (oneOrMore notQuote), optional quote]"

text \<open>\<^verbatim>\<open>/(?:node|step|state)\s+(?:called|named)\s+["']?([^"']+)["']?/i\<close>\<close>

definition addLabel2 :: rx where
  "addLabel2 = seqs [nodeWord, spaces, words [''called'', ''named''], spaces,
     optional quote, Group 1 (oneOrMore notQuote), optional quote]"

text \<open>\<^verbatim>\<open>/(?:add|create|new|make)\s+(?:a\s+)?(?:node|step|state)\s+["']?([^"']+)["']?/i\<close>\<close>

definition addLabel3 :: rx where
  "addLabel3 = seqs [words [''add'', ''create'', ''new'', ''make''], spaces,
     optional (Seq (str ''a'') spaces), nodeWord, spaces,
     optional quote, Group 1 (oneOrMore notQuote), optional quote]"

text \<open>\<^verbatim>\<open>/["']([^"']+)["']/\<close>\<close>

definition quotedText :: rx where
  "quotedText = seqs [quote, Group 1 (oneOrMore notQuote), quote]"

text \<open>\<^verbatim>\<open>/(delete|remove|drop|eliminate|get rid of).*(node|step|state)/\<close>\<close>

definition deleteTrigger :: rx where
  "deleteTrigger = seqs [
     Group 1 (words [''delete'', ''remove'', ''drop'', ''eliminate'', ''get rid of'']),
     anything, Group 2 nodeWord]"

text \<open>\<^verbatim>\<open>/(?:node|step|state)\s*(\d+)/i\<close>\<close>

definition numberedNode :: rx where
  "numberedNode = seqs [nodeWord, Star True (Atom Space), Group 1 (oneOrMore (Atom Digit))]"

text \<open>\<^verbatim>\<open>/(\d+)(?:\s|$)/\<close>\<close>

definition bareNumber :: rx where
  "bareNumber = seqs [Group 1 (oneOrMore (Atom Digit)), Alt (Atom Space) Eol]"

text \<open>\<^verbatim>\<open>/(?:the|a|an)\s+["']?([^"']+?)(?:\s+(?:node|step|state))?["']?$/i\<close>\<close>

definition deleteLabel1 :: rx where
  "deleteLabel1 = seqs [words [''the'', ''a'', ''an''], spaces, optional quote,
     Group 1 (oneOrMoreLazy notQuote), optional (Seq spaces nodeWord), optional quote, Eol]"

text \<open>\<^verbatim>\<open>/(?:node|step|state)\s+["']?([^"']+)["']?/i\<close>\<close>

definition deleteLabel2 :: rx where
  "deleteLabel2 = seqs [nodeWord, spaces, optional quote, Group 1 (oneOrMore notQuote), optional quote]"

text \<open>\<^verbatim>\<open>/(update|change|edit|modify|rename).*(node|step|state)/\<close>\<close>

definition updateTrigger :: rx where
  "updateTrigger = seqs [
     Group 1 (words [''update'', ''change'', ''edit'', ''modify'', ''rename'']),
     anything, Group 2 nodeWord]"

text \<open>\<^verbatim>\<open>/(?:to|say|says|with|as|named|called)\s+["']?([^"']+)["']?/i\<close>\<close>

definition updateLabel :: rx where
  "updateLabel = seqs [
     words [''to'', ''say'', ''says'', ''with'', ''as'', ''named'', ''called''],
     spaces, optional quote, Group 1 (oneOrMore notQuote), optional quote]"

text \<open>\<^verbatim>\<open>/(connect|link|join|attach).*(node|step|state)/\<close>\<close>

definition connectTrigger :: rx where
  "connectTrigger = seqs [Group 1 (words [''connect'', ''link'', ''join'', ''attach'']),
     anything, Group 2 nodeWord]"

text \<open>\<^verbatim>\<open>/(?:node|step|state)\s*(\d+).*(?:node|step|state)\s*(\d+)/i\<close>\<close>

definition twoNodeNumbers :: rx where
  "twoNodeNumbers = seqs [nodeWord, Star True (Atom Space), Group 1 (oneOrMore (Atom Digit)),
     anything, nodeWord, Star True (Atom Space), Group 2 (oneOrMore (Atom Digit))]"

text \<open>\<^verbatim>\<open>/(\d+).*(\d+)/\<close>\<close>

definition twoBareNumbers :: rx where
  "twoBareNumbers = seqs [Group 1 (oneOrMore (Atom Digit)), anything, Group 2 (oneOrMore (Atom Digit))]"

text \<open>\<^verbatim>\<open>/(disconnect|unlink|remove.*connection|delete.*edge|break.*connection)/\<close>\<close>

definition disconnectTrigger :: rx where
  "disconnectTrigger = Group 1 (alts [str ''disconnect'', str ''unlink'',
     seqs [str ''remove'', anything, str ''connection''],
     seqs [str ''delete'', anything, str ''edge''],
     seqs [str ''break'', anything, str ''connection'']])"

text \<open>\<^verbatim>\<open>/(explain|describe|what|how|tell.*about|show.*me|what.*does|what.*is)/\<close>\<close>

definition explainTrigger :: rx where
  "explainTrigger = Group 1 (alts [str ''explain'', str ''describe'', str ''what'', str ''how'',
     seqs [str ''tell'', anything, str ''about''],
     seqs [str ''show'', anything, str ''me''],
     seqs [str ''what'', anything, str ''does''],
     seqs [str ''what'', anything, str ''is'']])"


section \<open>The rule-based parser\<close>

text \<open>
  \<open>nodes[nodeNumber - 1]\<close>, the node that an ordinal names; \<open>nodeNumber\<close> is the
  result of \<open>parseInt\<close>.
\<close>

definition nodeAt :: "NodeRef list \<Rightarrow> int option \<Rightarrow> NodeRef option" where
  "nodeAt nodes nodeNumber = js_nth nodes (map_option (\<lambda>n. n - 1) nodeNumber)"

text \<open>Lines 247 to 277: the search of the delete branch for a node by label text.\<close>

definition stopWords :: "string list" where
  "stopWords = [''the'', ''a'', ''an'', ''node'', ''step'', ''state'', ''nodes'', ''steps'', ''states'']"

definition labelHasAll :: "string list \<Rightarrow> NodeRef \<Rightarrow> bool" where
  "labelHasAll terms n = list_all (\<lambda>term. includes_str (toLowerCase (label n)) term) terms"

definition labelHasAny :: "string list \<Rightarrow> NodeRef \<Rightarrow> bool" where
  "labelHasAny terms n = list_ex (\<lambda>term. includes_str (toLowerCase (label n)) term) terms"

definition findByLabelText :: "string \<Rightarrow> NodeRef list \<Rightarrow> NodeRef option" where
  "findByLabelText searchLabel nodes =
     (let searchTerms = filter (\<lambda>t. length t > 0) (split_ws searchLabel);
          filteredTerms = filter (\<lambda>term. term \<notin> set stopWords) searchTerms;
          finalTerms = (if length filteredTerms > 0 then filteredTerms else searchTerms)
      in case find (\<lambda>n. toLowerCase (label n) = searchLabel) nodes of
           Some node \<Rightarrow> Some node
         | None \<Rightarrow>
             (case (if length finalTerms > 0 then find (labelHasAll finalTerms) nodes else None) of
                Some node \<Rightarrow> Some node
              | None \<Rightarrow>
                  (if length finalTerms > 0
                   then (let significantTerms = filter (\<lambda>t. length t > 2) finalTerms
                         in if length significantTerms > 0
                            then find (labelHasAny significantTerms) nodes
                            else None)
                   else None)))"

text \<open>The list \<open>1. "label"\<close>, \<open>2. "label"\<close>, ... of the messages.\<close>

definition numbered :: "NodeRef list \<Rightarrow> string list" where
  "numbered nodes =
     map (\<lambda>(i, n). string_of_nat (i + 1) @ ''. \"'' @ label n @ ''\"'') (enumerate 0 nodes)"

definition addBranch :: "string \<Rightarrow> NodeRef list \<Rightarrow> error + AICommand" where
  "addBranch input nodes =
     (let labelMatch =
            (case rx_exec True addLabel1 input of Some m \<Rightarrow> Some m
             | None \<Rightarrow>
                 (case rx_exec True addLabel2 input of Some m \<Rightarrow> Some m
                  | None \<Rightarrow>
                      (case rx_exec True addLabel3 input of Some m \<Rightarrow> Some m
                       | None \<Rightarrow> rx_exec False quotedText input)))
      in case labelMatch of
           None \<Rightarrow>
             Inr ((cmd add_node)\<lparr>nodeLabel := Some (''Node '' @ string_of_nat (length nodes + 1))\<rparr>)
         | Some m \<Rightarrow>
             (case m 1 of
                None \<Rightarrow> Inl TypeError
              | Some g \<Rightarrow> Inr ((cmd add_node)\<lparr>nodeLabel := Some (trim g)\<rparr>)))"

definition deleteNotFound :: "NodeRef list \<Rightarrow> AICommand" where
  "deleteNotFound nodes = (cmd unknown)\<lparr>message :=
     Some (''Could not find the node to delete. Available nodes: '' @
           (if length nodes > 0 then join '', '' (numbered nodes) else ''none''))\<rparr>"

definition deleteBranch :: "string \<Rightarrow> NodeRef list \<Rightarrow> error + AICommand" where
  "deleteBranch input nodes =
     (let nodeIdMatch =
            (case rx_exec True numberedNode input of Some m \<Rightarrow> Some m
             | None \<Rightarrow> rx_exec False bareNumber input);
          byNumber =
            (case nodeIdMatch of None \<Rightarrow> None
             | Some m \<Rightarrow> nodeAt nodes (parseInt (m 1)))
      in case byNumber of
           Some node \<Rightarrow> Inr ((cmd delete_node)\<lparr>nodeId := Some (id' node)\<rparr>)
         | None \<Rightarrow>
             (let labelMatch =
                    (case rx_exec True deleteLabel1 input of Some m \<Rightarrow> Some m
                     | None \<Rightarrow>
                         (case rx_exec True deleteLabel2 input of Some m \<Rightarrow> Some m
                          | None \<Rightarrow> rx_exec False quotedText input))
              in case labelMatch of
                   None \<Rightarrow> Inr (deleteNotFound nodes)
                 | Some m \<Rightarrow>
                     (case m 1 of
                        None \<Rightarrow> Inl TypeError
                      | Some g \<Rightarrow>
                          (case findByLabelText (toLowerCase (trim g)) nodes of
                             Some node \<Rightarrow> Inr ((cmd delete_node)\<lparr>nodeId := Some (id' node)\<rparr>)
                           | None \<Rightarrow> Inr (deleteNotFound nodes)))))"

definition updateNotParsed :: AICommand where
  "updateNotParsed = (cmd unknown)\<lparr>message :=
     Some ''Could not parse update command. Format: \"Update node 1 to say Welcome\"''\<rparr>"

definition updateBranch :: "string \<Rightarrow> NodeRef list \<Rightarrow> error + AICommand" where
  "updateBranch input nodes =
     (let nodeIdMatch = rx_exec True numberedNode input;
          labelMatch =
            (case rx_exec True updateLabel input of Some m \<Rightarrow> Some m
             | None \<Rightarrow> rx_exec False quotedText input)
      in case nodeIdMatch of
           None \<Rightarrow> Inr updateNotParsed
         | Some mi \<Rightarrow>
             (case labelMatch of
                None \<Rightarrow> Inr updateNotParsed
              | Some ml \<Rightarrow>
                  (case ml 1 of
                     None \<Rightarrow> Inl TypeError
                   | Some g \<Rightarrow>
                       (case nodeAt nodes (parseInt (mi 1)) of
                          Some node \<Rightarrow>
                            Inr ((cmd update_node)\<lparr>nodeId := Some (id' node), nodeLabel := Some (trim g)\<rparr>)
                        | None \<Rightarrow> Inr updateNotParsed))))"

text \<open>Lines 321 to 337 and 347 to 363: the two ordinals of a connect or disconnect.\<close>

definition twoNodes :: "string \<Rightarrow> NodeRef list \<Rightarrow> (NodeRef \<times> NodeRef) option" where
  "twoNodes input nodes =
     (let nodesMatch =
            (case rx_exec True twoNodeNumbers input of Some m \<Rightarrow> Some m
             | None \<Rightarrow> rx_exec False twoBareNumbers input)
      in case nodesMatch of
           None \<Rightarrow> None
         | Some m \<Rightarrow>
             (case nodeAt nodes (parseInt (m 1)) of
                None \<Rightarrow> None
              | Some sourceNode \<Rightarrow>
                  (case nodeAt nodes (parseInt (m 2)) of
                     None \<Rightarrow> None
                   | Some targetNode \<Rightarrow> Some (sourceNode, targetNode))))"

definition connectBranch :: "string \<Rightarrow> NodeRef list \<Rightarrow> AICommand" where
  "connectBranch input nodes =
     (case twoNodes input nodes of
        Some (sourceNode, targetNode) \<Rightarrow>
          (cmd connect_nodes)\<lparr>sourceNodeId := Some (id' sourceNode),
                               targetNodeId := Some (id' targetNode)\<rparr>
      | None \<Rightarrow>
          (cmd unknown)\<lparr>message :=
            Some ''Could not find the nodes to connect. Format: \"Connect node 1 to node 2\"''\<rparr>)"

definition disconnectBranch :: "string \<Rightarrow> NodeRef list \<Rightarrow> AICommand" where
  "disconnectBranch input nodes =
     (case twoNodes input nodes of
        Some (sourceNode, targetNode) \<Rightarrow>
          (cmd disconnect_nodes)\<lparr>sourceNodeId := Some (id' sourceNode),
                                  targetNodeId := Some (id' targetNode)\<rparr>
      | None \<Rightarrow> (cmd unknown)\<lparr>message := Some ''Could not find the nodes to disconnect.''\<rparr>)"

definition explainBranch :: "NodeRef list \<Rightarrow> AICommand" where
  "explainBranch nodes =
     (if length nodes = 0
      then (cmd explain)\<lparr>message :=
             Some ''The flow is currently empty. Add some nodes to get started!''\<rparr>
      else (cmd explain)\<lparr>message :=
             Some (''Current flow structure:'' @ [CHR 0x0A, CHR 0x0A] @ ''Nodes:'' @ [CHR 0x0A] @
                   join [CHR 0x0A] (numbered nodes) @ [CHR 0x0A, CHR 0x0A] @
                   ''Total: '' @ string_of_nat (length nodes) @ '' node(s)'')\<rparr>)"

definition defaultUnknown :: AICommand where
  "defaultUnknown = (cmd unknown)\<lparr>message :=
     Some (''I didn't understand that command. Try: \"Add a node called X\", \"Delete node 1\", '' @
           ''\"Delete the end call node\", \"Connect node 1 to node 2\", or \"Update node 1 to say Y\"'')\<rparr>"

text \<open>
  \<open>getEnhancedMockResponse\<close>: the triggers are tried in the order of the source and
  the first that matches decides the branch.
\<close>

definition getEnhancedMockResponse :: "string \<Rightarrow> NodeRef list \<Rightarrow> error + AICommand" where
  "getEnhancedMockResponse userInput nodes =
     (let input = trim (toLowerCase userInput)
      in if rx_exec False addTrigger input \<noteq> None then addBranch input nodes
         else if rx_exec False deleteTrigger input \<noteq> None then deleteBranch input nodes
         else if rx_exec False updateTrigger input \<noteq> None then updateBranch input nodes
         else if rx_exec False connectTrigger input \<noteq> None then Inr (connectBranch input nodes)
         else if rx_exec False disconnectTrigger input \<noteq> None then Inr (disconnectBranch input nodes)
         else if rx_exec False explainTrigger input \<noteq> None then Inr (explainBranch nodes)
         else Inr defaultUnknown)"


section \<open>The validator\<close>

text \<open>
  Lines 143 to 164: the node for a reference that is not an id, by label: equal
  without regard to case, then a label with every term, then a label with some term
  longer than two characters.
\<close>

definition nodeByLabel :: "string \<Rightarrow> NodeRef list \<Rightarrow> NodeRef option" where
  "nodeByLabel ref nodes =
     (case find (\<lambda>n. toLowerCase (label n) = toLowerCase ref) nodes of
        Some n \<Rightarrow> Some n
      | None \<Rightarrow>
          (case find (labelHasAll (filter (\<lambda>t. length t > 0) (split_ws (toLowerCase ref)))) nodes of
             Some n \<Rightarrow> Some n
           | None \<Rightarrow>
               find (labelHasAny (filter (\<lambda>t. length t > 2) (split_ws (toLowerCase ref)))) nodes))"

definition notFoundMessage :: "string \<Rightarrow> NodeRef list \<Rightarrow> string" where
  "notFoundMessage ref nodes =
     ''Node \"'' @ ref @ ''\" not found. Available nodes: '' @
     join '', '' (map (\<lambda>n. ''\"'' @ label n @ ''\"'') nodes)"

text \<open>Lines 178 to 195: the two ends of a connect or disconnect.\<close>

definition resolveEnds :: "AICommand \<Rightarrow> NodeRef list \<Rightarrow> AICommand" where
  "resolveEnds command nodes =
     (if type command = connect_nodes \<or> type command = disconnect_nodes
      then (if truthy (sourceNodeId command) \<and> truthy (targetNodeId command)
            then (case find (\<lambda>n. Some (id' n) = sourceNodeId command \<or>
                                   Some (label n) = sourceNodeId command) nodes of
                    None \<Rightarrow>
                      (cmd unknown)\<lparr>message :=
                        Some ''Could not find one or both nodes to connect/disconnect.''\<rparr>
                  | Some sourceNode \<Rightarrow>
                      (case find (\<lambda>n. Some (id' n) = targetNodeId command \<or>
                                      Some (label n) = targetNodeId command) nodes of
                         None \<Rightarrow>
                           (cmd unknown)\<lparr>message :=
                             Some ''Could not find one or both nodes to connect/disconnect.''\<rparr>
                       | Some targetNode \<Rightarrow>
                           command\<lparr>sourceNodeId := Some (id' sourceNode),
                                    targetNodeId := Some (id' targetNode)\<rparr>))
            else command)
      else command)"

text \<open>
  \<open>validateAndResolveCommand\<close>.  The source overwrites fields of the draft; the
  model returns the updated record.
\<close>

definition validateAndResolveCommand :: "AICommand \<Rightarrow> NodeRef list \<Rightarrow> AICommand" where
  "validateAndResolveCommand command nodes =
     (if (type command = delete_node \<or> type command = update_node) \<and> truthy (nodeId command)
      then (case nodeId command of
              None \<Rightarrow> resolveEnds command nodes
            | Some ref \<Rightarrow>
                (case find (\<lambda>n. id' n = ref) nodes of
                   Some nodeExists \<Rightarrow> resolveEnds command nodes
                 | None \<Rightarrow>
                     (case nodeByLabel ref nodes of
                        Some n \<Rightarrow> resolveEnds (command\<lparr>nodeId := Some (id' n)\<rparr>) nodes
                      | None \<Rightarrow> (cmd unknown)\<lparr>message := Some (notFoundMessage ref nodes)\<rparr>)))
      else resolveEnds command nodes)"

section \<open>The remote attempt\<close>

text \<open>
  What the remote side can answer.  \<open>apiData.data\<close> is absent, an object with a
  field \<open>generated_text\<close>, a string, an array whose first element has a field
  \<open>generated_text\<close>, or anything else.  The request is rejected (a network
  error), or its body is not JSON, or it is an object with the fields \<open>success\<close>
  and \<open>data\<close>.
\<close>

datatype remoteData =
  NoData | GeneratedText string | StringData string | ArrayData string | OtherData

datatype apiReply = FetchRejected | BodyNotJson | ApiData bool remoteData

text \<open>Lines 94 to 104: the text of the answer, when the answer has a known shape.\<close>

definition remoteText :: "remoteData \<Rightarrow> string option" where
  "remoteText d =
     (case d of
        NoData \<Rightarrow> None
      | GeneratedText t \<Rightarrow> if t \<noteq> [] then Some t else None
      | StringData t \<Rightarrow> Some t
      | ArrayData t \<Rightarrow> if t \<noteq> [] then Some t else None
      | OtherData \<Rightarrow> None)"

text \<open>\<^verbatim>\<open>/```json\n?/g\<close>, \<^verbatim>\<open>/```\n?/g\<close> and \<^verbatim>\<open>/\{[\s\S]*\}/\<close>\<close>

definition fenceJson :: rx where
  "fenceJson = Seq (str ''```json'') (optional (Atom (Lit (CHR 0x0A))))"

definition fence :: rx where
  "fence = Seq (str ''```'') (optional (Atom (Lit (CHR 0x0A))))"

definition jsonObject :: rx where
  "jsonObject = seqs [Atom (Lit (CHR ''{'')), Star True (Atom (NoneOf [])), Atom (Lit (CHR ''}''))]"

text \<open>Lines 107 to 116: the part of the text that is handed to \<open>JSON.parse\<close>.\<close>

definition extractJson :: "string \<Rightarrow> string" where
  "extractJson text =
     (let jsonText = trim text;
          jsonText = (if startsWith jsonText ''```''
                      then trim (rx_remove_all False fence (rx_remove_all False fenceJson jsonText))
                      else jsonText)
      in case rx_exec False (Group 0 jsonObject) jsonText of
           None \<Rightarrow> jsonText
         | Some m \<Rightarrow> (case m 0 of None \<Rightarrow> jsonText | Some g \<Rightarrow> g))"

text \<open>
  \<open>parseAICommand\<close>.  The environment is explicit: \<open>apiKey\<close> is the variable
  \<open>NEXT_PUBLIC_SARVAM_API_KEY\<close>, \<open>reply\<close> is what the request to \<open>/api/ai\<close>
  comes back with, and \<open>jsonParse\<close> is \<open>JSON.parse\<close> read as a command,
  \<open>None\<close> when it throws.  Everything after the test of the key runs inside
  \<open>try\<close>, and the \<open>catch\<close> returns the rule-based parser's result.
\<close>

definition parseAICommand ::
  "(string \<Rightarrow> AICommand option) \<Rightarrow> string option \<Rightarrow> apiReply \<Rightarrow> string \<Rightarrow> NodeRef list
     \<Rightarrow> error + AICommand" where
  "parseAICommand jsonParse apiKey reply userInput nodes =
     (if \<not> truthy apiKey then getEnhancedMockResponse userInput nodes
      else (case reply of
              FetchRejected \<Rightarrow> getEnhancedMockResponse userInput nodes
            | BodyNotJson \<Rightarrow> getEnhancedMockResponse userInput nodes
            | ApiData success d \<Rightarrow>
                if \<not> success then getEnhancedMockResponse userInput nodes
                else (case remoteText d of
                        None \<Rightarrow> getEnhancedMockResponse userInput nodes
                      | Some text \<Rightarrow>
                          (case jsonParse (extractJson text) of
                             None \<Rightarrow> getEnhancedMockResponse userInput nodes
                           | Some command \<Rightarrow> Inr (validateAndResolveCommand command nodes)))))"


section \<open>Notions of the specification\<close>

text \<open>
  The fields that each kind of command needs, as the comment on the command format
  in \<open>parseAICommand\<close> lists them: a label for \<open>add_node\<close>, a node for
  \<open>delete_node\<close>, both for \<open>update_node\<close>, two ends for \<open>connect_nodes\<close> and
  \<open>disconnect_nodes\<close>, a message for \<open>explain\<close> and \<open>unknown\<close>.
\<close>

definition hasRequiredFields :: "AICommand \<Rightarrow> bool" where
  "hasRequiredFields c =
     (case type c of
        add_node \<Rightarrow> nodeLabel c \<noteq> None
      | delete_node \<Rightarrow> nodeId c \<noteq> None
      | update_node \<Rightarrow> nodeId c \<noteq> None \<and> nodeLabel c \<noteq> None
      | connect_nodes \<Rightarrow> sourceNodeId c \<noteq> None \<and> targetNodeId c \<noteq> None
      | disconnect_nodes \<Rightarrow> sourceNodeId c \<noteq> None \<and> targetNodeId c \<noteq> None
      | explain \<Rightarrow> message c \<noteq> None
      | unknown \<Rightarrow> message c \<noteq> None)"

text \<open>
  The captures that take part in every match of a pattern: those on no optional
  path, in no iteration, and in every alternative.
\<close>

fun must :: "rx \<Rightarrow> nat set" where
  "must (Atom a) = {}"
| "must Empty = {}"
| "must Eol = {}"
| "must (Seq r1 r2) = must r1 \<union> must r2"
| "must (Alt r1 r2) = must r1 \<inter> must r2"
| "must (Star g r) = {}"
| "must (Group i r) = insert i (must r)"

text \<open>A field holds the id of a node of the list.\<close>

definition isNodeId :: "NodeRef list \<Rightarrow> string option \<Rightarrow> bool" where
  "isNodeId nodes x = list_ex (\<lambda>n. x = Some (id' n)) nodes"

text \<open>The node identifiers that a command of its kind carries are ids of nodes of the list.\<close>

definition idsResolved :: "AICommand \<Rightarrow> NodeRef list \<Rightarrow> bool" where
  "idsResolved c nodes =
     (case type c of
        delete_node \<Rightarrow> isNodeId nodes (nodeId c)
      | update_node \<Rightarrow> isNodeId nodes (nodeId c)
      | connect_nodes \<Rightarrow> isNodeId nodes (sourceNodeId c) \<and> isNodeId nodes (targetNodeId c)
      | disconnect_nodes \<Rightarrow> isNodeId nodes (sourceNodeId c) \<and> isNodeId nodes (targetNodeId c)
      | add_node \<Rightarrow> True
      | explain \<Rightarrow> True
      | unknown \<Rightarrow> True)"

text \<open>The references that a draft of its kind needs are there and not empty.\<close>

definition refsPresent :: "AICommand \<Rightarrow> bool" where
  "refsPresent c =
     (case type c of
        delete_node \<Rightarrow> truthy (nodeId c)
      | update_node \<Rightarrow> truthy (nodeId c)
      | connect_nodes \<Rightarrow> truthy (sourceNodeId c) \<and> truthy (targetNodeId c)
      | disconnect_nodes \<Rightarrow> truthy (sourceNodeId c) \<and> truthy (targetNodeId c)
      | add_node \<Rightarrow> True
      | explain \<Rightarrow> True
      | unknown \<Rightarrow> True)"

text \<open>
  The ways in which the remote attempt fails: no key, a rejected request, a body
  that is no JSON, an answer without success, a text that cannot be read off the
  answer, a text that \<open>JSON.parse\<close> rejects.
\<close>

definition remoteFailed :: "(string \<Rightarrow> AICommand option) \<Rightarrow> string option \<Rightarrow> apiReply \<Rightarrow> bool" where
  "remoteFailed jsonParse apiKey reply =
     (apiKey = None \<or> apiKey = Some [] \<or> reply = FetchRejected \<or> reply = BodyNotJson \<or>
      (case reply of
         ApiData success d \<Rightarrow>
           success = False \<or> remoteText d = None \<or>
           (case remoteText d of Some text \<Rightarrow> jsonParse (extractJson text) = None | None \<Rightarrow> False)
       | FetchRejected \<Rightarrow> False
       | BodyNotJson \<Rightarrow> False))"

text \<open>
  Fuzzy resolution in the words of the specification.  The text is cut into tokens
  at white space; tier 1 is the first node whose lower-cased label contains every
  token, and tier 2, tried when tier 1 finds nothing, the first node whose label
  contains some token longer than two characters.
\<close>

definition tokens :: "string \<Rightarrow> string list" where
  "tokens text = filter (\<lambda>t. t \<noteq> []) (split_ws text)"

definition spec_twoTiers :: "string list \<Rightarrow> NodeRef list \<Rightarrow> NodeRef option" where
  "spec_twoTiers ts nodes =
     (case find (\<lambda>n. list_all (includes_str (toLowerCase (label n))) ts) nodes of
        Some n \<Rightarrow> Some n
      | None \<Rightarrow>
          find (\<lambda>n. list_ex (includes_str (toLowerCase (label n))) (filter (\<lambda>t. 2 < length t) ts))
            nodes)"

text \<open>As the specification has it: the stop words are discarded.\<close>

definition spec_resolveByFuzzyLabel :: "string \<Rightarrow> NodeRef list \<Rightarrow> NodeRef option" where
  "spec_resolveByFuzzyLabel text nodes =
     spec_twoTiers (filter (\<lambda>t. t \<notin> set stopWords) (tokens text)) nodes"

text \<open>As the delete branch has it: the stop words are kept when nothing else is left.\<close>

definition keptTerms :: "string \<Rightarrow> string list" where
  "keptTerms text =
     (if filter (\<lambda>t. t \<notin> set stopWords) (tokens text) = [] then tokens text
      else filter (\<lambda>t. t \<notin> set stopWords) (tokens text))"

text \<open>The two nodes of the examples of the specification.\<close>

definition startNode :: NodeRef where
  "startNode = \<lparr>id' = ''n1'', label = ''Start'', index = 0\<rparr>"

definition endCallNode :: NodeRef where
  "endCallNode = \<lparr>id' = ''n2'', label = ''End Call'', index = 1\<rparr>"

section \<open>Evaluation of the model\<close>

lemmas rx_defs = quote_def notQuote_def anything_def spaces_def nodeWord_def addTrigger_def
  addLabel1_def addLabel2_def addLabel3_def quotedText_def deleteTrigger_def numberedNode_def
  bareNumber_def deleteLabel1_def deleteLabel2_def updateTrigger_def updateLabel_def
  connectTrigger_def twoNodeNumbers_def twoBareNumbers_def disconnectTrigger_def
  explainTrigger_def words_def oneOrMore_def oneOrMoreLazy_def optional_def

lemmas str_defs = toLowerCase_def lowerChar_def isUpper_def trim_def isSpace_def isDigit_def
  digitVal_def parseInt_def js_nth_def nodeAt_def split_ws_def

lemmas parser_defs = getEnhancedMockResponse_def addBranch_def deleteBranch_def updateBranch_def
  connectBranch_def disconnectBranch_def explainBranch_def twoNodes_def findByLabelText_def
  labelHasAll_def labelHasAny_def stopWords_def deleteNotFound_def numbered_def cmd_def

lemmas validator_defs = validateAndResolveCommand_def resolveEnds_def nodeByLabel_def
  notFoundMessage_def truthy_def labelHasAll_def labelHasAny_def cmd_def

lemmas example_nodes = startNode_def endCallNode_def

section \<open>Every capture of a label takes part in its match\<close>

lemma rx_m_must:
  "rx_m ci r s c k = Some res \<Longrightarrow>
   \<exists>s' c'. k s' c' = Some res \<and> (\<forall>i. i \<in> must r \<or> c i \<noteq> None \<longrightarrow> c' i \<noteq> None)"
proof (induction ci r s c k arbitrary: res rule: rx_m.induct)
  case (5 ci r1 r2 s c k)
  from "5.prems" have "rx_m ci r1 s c (\<lambda>s' c'. rx_m ci r2 s' c' k) = Some res" by simp
  from "5.IH"(2)[OF this] obtain s1 c1 where
    a: "rx_m ci r2 s1 c1 k = Some res" and b: "\<forall>i. i \<in> must r1 \<or> c i \<noteq> None \<longrightarrow> c1 i \<noteq> None"
    by blast
  from "5.IH"(1)[OF a] obtain s2 c2 where
    "k s2 c2 = Some res" and "\<forall>i. i \<in> must r2 \<or> c1 i \<noteq> None \<longrightarrow> c2 i \<noteq> None"
    by blast
  with b show ?case by (intro exI[of _ s2] exI[of _ c2]) auto
next
  case (6 ci r1 r2 s c k)
  show ?case
  proof (cases "rx_m ci r1 s c k")
    case None
    with "6.prems" have "rx_m ci r2 s c k = Some res" by simp
    from "6.IH"(2)[OF None this] obtain s' c' where
      "k s' c' = Some res" and "\<forall>i. i \<in> must r2 \<or> c i \<noteq> None \<longrightarrow> c' i \<noteq> None"
      by blast
    then show ?thesis by (intro exI[of _ s'] exI[of _ c']) auto
  next
    case (Some a)
    with "6.prems" have "rx_m ci r1 s c k = Some res" by simp
    from "6.IH"(1)[OF this] obtain s' c' where
      "k s' c' = Some res" and "\<forall>i. i \<in> must r1 \<or> c i \<noteq> None \<longrightarrow> c' i \<noteq> None"
      by blast
    then show ?thesis by (intro exI[of _ s'] exI[of _ c']) auto
  qed
next
  case (7 ci r s c k)
  let ?k = "\<lambda>s' c'. if length s' < length s then rx_m ci (Star True r) s' c' k else None"
  show ?case
  proof (cases "rx_m ci r s c ?k")
    case None
    with "7.prems" have "k s c = Some res" by simp
    then show ?thesis by auto
  next
    case (Some a)
    with "7.prems" have ar: "a = res" by simp
    from "7.IH"(2)[OF Some[unfolded ar]] obtain s1 c1 where
      a: "?k s1 c1 = Some res" and b: "\<forall>i. i \<in> must r \<or> c i \<noteq> None \<longrightarrow> c1 i \<noteq> None"
      by blast
    from a have l: "length s1 < length s" and m: "rx_m ci (Star True r) s1 c1 k = Some res"
      by (auto split: if_splits)
    from "7.IH"(1)[OF l m] obtain s2 c2 where
      "k s2 c2 = Some res" and "\<forall>i. i \<in> must (Star True r) \<or> c1 i \<noteq> None \<longrightarrow> c2 i \<noteq> None"
      by blast
    with b show ?thesis by (intro exI[of _ s2] exI[of _ c2]) auto
  qed
next
  case (8 ci r s c k)
  let ?k = "\<lambda>s' c'. if length s' < length s then rx_m ci (Star False r) s' c' k else None"
  show ?case
  proof (cases "k s c")
    case (Some a)
    with "8.prems" have "k s c = Some res" by simp
    then show ?thesis by auto
  next
    case None
    with "8.prems" have "rx_m ci r s c ?k = Some res" by simp
    from "8.IH"(2)[OF None this] obtain s1 c1 where
      a: "?k s1 c1 = Some res" and b: "\<forall>i. i \<in> must r \<or> c i \<noteq> None \<longrightarrow> c1 i \<noteq> None"
      by blast
    from a have l: "length s1 < length s" and m: "rx_m ci (Star False r) s1 c1 k = Some res"
      by (auto split: if_splits)
    from "8.IH"(1)[OF None l m] obtain s2 c2 where
      "k s2 c2 = Some res" and "\<forall>i. i \<in> must (Star False r) \<or> c1 i \<noteq> None \<longrightarrow> c2 i \<noteq> None"
      by blast
    with b show ?thesis by (intro exI[of _ s2] exI[of _ c2]) auto
  qed
next
  case (9 ci i r s c k)
  from "9.prems" have "rx_m ci r s c (\<lambda>s' c'. k s' (c'(i \<mapsto> take (length s - length s') s))) = Some res"
    by simp
  from "9.IH"[OF this] obtain s1 c1 where
    a: "k s1 (c1(i \<mapsto> take (length s - length s1) s)) = Some res"
    and b: "\<forall>j. j \<in> must r \<or> c j \<noteq> None \<longrightarrow> c1 j \<noteq> None"
    by blast
  from b have "\<forall>j. j \<in> must (Group i r) \<or> c j \<noteq> None \<longrightarrow>
      (c1(i \<mapsto> take (length s - length s1) s)) j \<noteq> None"
    by auto
  with a show ?case by blast
qed (auto split: if_splits)

lemma rx_exec_must:
  "rx_exec ci r s = Some m \<Longrightarrow> i \<in> must r \<Longrightarrow> \<exists>g. m i = Some g"
proof (induction s)
  case Nil
  then have "rx_m ci r [] Map.empty (\<lambda>s' c'. Some c') = Some m" by simp
  from rx_m_must[OF this] Nil.prems(2) show ?case by auto
next
  case (Cons x xs)
  show ?case
  proof (cases "rx_m ci r (x # xs) Map.empty (\<lambda>s' c'. Some c')")
    case None
    with Cons show ?thesis by simp
  next
    case (Some a)
    with Cons.prems have "rx_m ci r (x # xs) Map.empty (\<lambda>s' c'. Some c') = Some m" by simp
    from rx_m_must[OF this] Cons.prems(2) show ?thesis by auto
  qed
qed

lemma must_labels:
  "Suc 0 \<in> must addLabel1" "Suc 0 \<in> must addLabel2" "Suc 0 \<in> must addLabel3" "Suc 0 \<in> must quotedText"
  "Suc 0 \<in> must deleteLabel1" "Suc 0 \<in> must deleteLabel2" "Suc 0 \<in> must updateLabel"
  by (simp_all add: addLabel1_def addLabel2_def addLabel3_def quotedText_def deleteLabel1_def
      deleteLabel2_def updateLabel_def oneOrMore_def oneOrMoreLazy_def optional_def)

lemmas label_group =
  rx_exec_must[OF _ must_labels(1)] rx_exec_must[OF _ must_labels(2)]
  rx_exec_must[OF _ must_labels(3)] rx_exec_must[OF _ must_labels(4)]
  rx_exec_must[OF _ must_labels(5)] rx_exec_must[OF _ must_labels(6)]
  rx_exec_must[OF _ must_labels(7)]

lemma addBranch_total: "\<exists>c. addBranch input nodes = Inr c \<and> hasRequiredFields c"
  by (auto simp: addBranch_def hasRequiredFields_def cmd_def Let_def
      split: option.splits dest: label_group)

lemma deleteBranch_total: "\<exists>c. deleteBranch input nodes = Inr c \<and> hasRequiredFields c"
  by (auto simp: deleteBranch_def deleteNotFound_def hasRequiredFields_def cmd_def Let_def
      split: option.splits dest: label_group)

lemma updateBranch_total: "\<exists>c. updateBranch input nodes = Inr c \<and> hasRequiredFields c"
  by (auto simp: updateBranch_def updateNotParsed_def hasRequiredFields_def cmd_def Let_def
      split: option.splits dest: label_group)

lemma connectBranch_total: "hasRequiredFields (connectBranch input nodes)"
  by (auto simp: connectBranch_def hasRequiredFields_def cmd_def split: option.splits)

lemma disconnectBranch_total: "hasRequiredFields (disconnectBranch input nodes)"
  by (auto simp: disconnectBranch_def hasRequiredFields_def cmd_def split: option.splits)

lemma explainBranch_total: "hasRequiredFields (explainBranch nodes)"
  by (auto simp: explainBranch_def hasRequiredFields_def cmd_def)

lemma mock_total: "\<exists>c. getEnhancedMockResponse userInput nodes = Inr c \<and> hasRequiredFields c"
  unfolding getEnhancedMockResponse_def Let_def
  using addBranch_total deleteBranch_total updateBranch_total connectBranch_total
    disconnectBranch_total explainBranch_total
  by (simp add: defaultUnknown_def hasRequiredFields_def cmd_def)

section \<open>Totality\<close>

text \<open>
  Claim C1.  For every input string and every list of nodes, the empty list among
  them, the rule-based parser raises no exception and returns one command, of one
  of the seven kinds, that has the fields its kind needs.
\<close>

theorem interpreter_total:
  "\<exists>c. getEnhancedMockResponse userInput nodes = Inr c \<and> hasRequiredFields c \<and>
       type c \<in> {add_node, delete_node, update_node, connect_nodes, disconnect_nodes,
                   explain, unknown}"
proof -
  obtain c where c: "getEnhancedMockResponse userInput nodes = Inr c" "hasRequiredFields c"
    using mock_total by blast
  have "type c \<in> {add_node, delete_node, update_node, connect_nodes, disconnect_nodes,
                    explain, unknown}"
    by (cases "type c") simp_all
  with c show ?thesis by blast
qed

section \<open>The validator and node identifiers\<close>

lemma find_in_set: "find P xs = Some x \<Longrightarrow> x \<in> set xs"
  by (induction xs) (auto split: if_splits)

lemma isNodeId_member: "n \<in> set nodes \<Longrightarrow> isNodeId nodes (Some (id' n))"
  by (auto simp: isNodeId_def list_ex_iff)

lemma nodeByLabel_in_set: "nodeByLabel ref nodes = Some n \<Longrightarrow> n \<in> set nodes"
  by (auto simp: nodeByLabel_def split: option.splits dest: find_in_set)

lemma find_id_isNodeId: "find (\<lambda>n. id' n = ref) nodes = Some n \<Longrightarrow> isNodeId nodes (Some ref)"
  by (auto simp: isNodeId_def list_ex_iff find_Some_iff)

text \<open>
  Claim C2, as stated, fails.  A draft \<open>connect_nodes\<close> that names only its source,
  by the label text \<open>Start\<close>, leaves the validator as it came: still a
  \<open>connect_nodes\<close>, with the label text in \<open>sourceNodeId\<close> and no target.  A draft
  \<open>delete_node\<close> without a \<open>nodeId\<close> is returned unchanged too.
\<close>

theorem validator_keeps_unresolved_reference:
  "type (validateAndResolveCommand ((cmd connect_nodes)\<lparr>sourceNodeId := Some ''Start''\<rparr>)
      [startNode, endCallNode]) = connect_nodes \<and>
   \<not> idsResolved (validateAndResolveCommand ((cmd connect_nodes)\<lparr>sourceNodeId := Some ''Start''\<rparr>)
      [startNode, endCallNode]) [startNode, endCallNode] \<and>
   type (validateAndResolveCommand (cmd delete_node) [startNode, endCallNode]) = delete_node \<and>
   \<not> idsResolved (validateAndResolveCommand (cmd delete_node) [startNode, endCallNode])
      [startNode, endCallNode]"
  by (simp add: validator_defs idsResolved_def isNodeId_def example_nodes)

text \<open>What the validator does with the ends of a connect or disconnect, and with a node.\<close>

lemma resolveEnds_other:
  "type c \<noteq> connect_nodes \<Longrightarrow> type c \<noteq> disconnect_nodes \<Longrightarrow> resolveEnds c nodes = c"
  by (simp add: resolveEnds_def)

lemma resolveEnds_absent:
  "\<not> (truthy (sourceNodeId c) \<and> truthy (targetNodeId c)) \<Longrightarrow> resolveEnds c nodes = c"
  by (auto simp: resolveEnds_def)

lemma resolveEnds_present:
  assumes "type c = connect_nodes \<or> type c = disconnect_nodes"
    and "truthy (sourceNodeId c)" and "truthy (targetNodeId c)"
  shows "resolveEnds c nodes =
           (cmd unknown)\<lparr>message := Some ''Could not find one or both nodes to connect/disconnect.''\<rparr> \<or>
         (\<exists>a \<in> set nodes. \<exists>b \<in> set nodes.
            resolveEnds c nodes = c\<lparr>sourceNodeId := Some (id' a), targetNodeId := Some (id' b)\<rparr>)"
proof (cases "find (\<lambda>n. Some (id' n) = sourceNodeId c \<or> Some (label n) = sourceNodeId c) nodes")
  case None
  with assms show ?thesis by (simp add: resolveEnds_def)
next
  case (Some a)
  note src = this
  show ?thesis
  proof (cases "find (\<lambda>n. Some (id' n) = targetNodeId c \<or> Some (label n) = targetNodeId c) nodes")
    case None
    with assms src show ?thesis by (simp add: resolveEnds_def)
  next
    case (Some b)
    from src have "a \<in> set nodes" by (rule find_in_set)
    moreover from Some have "b \<in> set nodes" by (rule find_in_set)
    moreover from assms src Some
    have "resolveEnds c nodes = c\<lparr>sourceNodeId := Some (id' a), targetNodeId := Some (id' b)\<rparr>"
      by (simp add: resolveEnds_def)
    ultimately show ?thesis by blast
  qed
qed

lemma validate_node_command:
  assumes "type c = delete_node \<or> type c = update_node" and "nodeId c = Some ref" and "ref \<noteq> []"
  shows "(validateAndResolveCommand c nodes = c \<and> isNodeId nodes (Some ref)) \<or>
         (\<exists>n \<in> set nodes. validateAndResolveCommand c nodes = c\<lparr>nodeId := Some (id' n)\<rparr>) \<or>
         validateAndResolveCommand c nodes = (cmd unknown)\<lparr>message := Some (notFoundMessage ref nodes)\<rparr>"
proof (cases "find (\<lambda>n. id' n = ref) nodes")
  case (Some n)
  with assms have "validateAndResolveCommand c nodes = c"
    by (auto simp: validateAndResolveCommand_def truthy_def resolveEnds_other)
  with Some show ?thesis by (auto dest: find_id_isNodeId)
next
  case None
  show ?thesis
  proof (cases "nodeByLabel ref nodes")
    case (Some n)
    with assms None have "validateAndResolveCommand c nodes = c\<lparr>nodeId := Some (id' n)\<rparr>"
      by (auto simp: validateAndResolveCommand_def truthy_def resolveEnds_other)
    with Some show ?thesis by (auto dest: nodeByLabel_in_set)
  next
    case nf: None
    with assms None show ?thesis
      by (auto simp: validateAndResolveCommand_def truthy_def)
  qed
qed

lemma validate_other:
  "\<not> ((type c = delete_node \<or> type c = update_node) \<and> truthy (nodeId c)) \<Longrightarrow>
   validateAndResolveCommand c nodes = resolveEnds c nodes"
  by (auto simp: validateAndResolveCommand_def)

text \<open>
  Claim C2, amended.  For every draft that carries the references its kind needs,
  present and not empty (\<open>nodeId\<close> for \<open>delete_node\<close> and \<open>update_node\<close>, both
  \<open>sourceNodeId\<close> and \<open>targetNodeId\<close> for \<open>connect_nodes\<close> and
  \<open>disconnect_nodes\<close>), and for every list of nodes, the validator returns a command
  of the draft's kind whose node identifiers are ids of nodes of the list, or an
  \<open>unknown\<close> command with one of its two diagnostics.  A draft with a missing or
  empty reference is returned unchanged.
\<close>

theorem validator_resolves_present_references:
  "(refsPresent draft \<longrightarrow>
      (type (validateAndResolveCommand draft nodes) = type draft \<and>
       idsResolved (validateAndResolveCommand draft nodes) nodes) \<or>
      (\<exists>ref. nodeId draft = Some ref \<and>
         validateAndResolveCommand draft nodes =
           (cmd unknown)\<lparr>message := Some (''Node \"'' @ ref @ ''\" not found. Available nodes: '' @
              join '', '' (map (\<lambda>n. ''\"'' @ label n @ ''\"'') nodes))\<rparr>) \<or>
      validateAndResolveCommand draft nodes =
        (cmd unknown)\<lparr>message := Some ''Could not find one or both nodes to connect/disconnect.''\<rparr>) \<and>
   (\<not> refsPresent draft \<longrightarrow> validateAndResolveCommand draft nodes = draft)"
proof -
  let ?r = "validateAndResolveCommand draft nodes"
  have absent: "\<not> refsPresent draft \<Longrightarrow> ?r = draft"
    by (cases "type draft")
       (auto simp: refsPresent_def validate_other resolveEnds_other resolveEnds_absent)
  have present: "refsPresent draft \<Longrightarrow>
      (type ?r = type draft \<and> idsResolved ?r nodes) \<or>
      (\<exists>ref. nodeId draft = Some ref \<and>
         ?r = (cmd unknown)\<lparr>message := Some (''Node \"'' @ ref @ ''\" not found. Available nodes: '' @
              join '', '' (map (\<lambda>n. ''\"'' @ label n @ ''\"'') nodes))\<rparr>) \<or>
      ?r = (cmd unknown)\<lparr>message := Some ''Could not find one or both nodes to connect/disconnect.''\<rparr>"
  proof -
    assume p: "refsPresent draft"
    consider (node) "type draft = delete_node \<or> type draft = update_node"
      | (ends) "type draft = connect_nodes \<or> type draft = disconnect_nodes"
      | (other) "type draft = add_node \<or> type draft = explain \<or> type draft = unknown"
      by (cases "type draft") auto
    then show ?thesis
    proof cases
      case node
      with p obtain ref where ref: "nodeId draft = Some ref" "ref \<noteq> []"
        by (auto simp: refsPresent_def truthy_def split: option.splits)
      from validate_node_command[OF node ref, of nodes] node ref show ?thesis
        by (auto simp: idsResolved_def notFoundMessage_def isNodeId_member)
    next
      case ends
      with p have t: "truthy (sourceNodeId draft)" "truthy (targetNodeId draft)"
        by (auto simp: refsPresent_def)
      from ends have "?r = resolveEnds draft nodes" by (auto simp: validate_other)
      with resolveEnds_present[OF ends t, of nodes] ends show ?thesis
        by (auto simp: idsResolved_def isNodeId_member)
    next
      case other
      then have "?r = draft" by (auto simp: validate_other resolveEnds_other)
      with other show ?thesis by (auto simp: idsResolved_def)
    qed
  qed
  from absent present show ?thesis by blast
qed

text \<open>
  The amended claim at work: the reference \<open>end call\<close> of a \<open>delete_node\<close> is
  replaced by the id \<open>n2\<close>, and a \<open>delete_node\<close> without reference is returned
  as it is.
\<close>

theorem validator_resolves_present_references_witness:
  "refsPresent ((cmd delete_node)\<lparr>nodeId := Some ''end call''\<rparr>) \<and>
   validateAndResolveCommand ((cmd delete_node)\<lparr>nodeId := Some ''end call''\<rparr>) [startNode, endCallNode]
     = (cmd delete_node)\<lparr>nodeId := Some ''n2''\<rparr> \<and>
   idsResolved ((cmd delete_node)\<lparr>nodeId := Some ''n2''\<rparr>) [startNode, endCallNode] \<and>
   \<not> refsPresent (cmd delete_node) \<and>
   validateAndResolveCommand (cmd delete_node) [startNode, endCallNode] = cmd delete_node"
  using validator_resolves_present_references
          [of "(cmd delete_node)\<lparr>nodeId := Some ''end call''\<rparr>" "[startNode, endCallNode]"]
        validator_resolves_present_references [of "cmd delete_node" "[startNode, endCallNode]"]
  by (simp add: validator_defs refsPresent_def idsResolved_def isNodeId_def example_nodes str_defs)

section \<open>The fallback from the remote attempt\<close>

text \<open>
  Claim C3.  For every input and every list of nodes, when the remote attempt fails
  (no key, a network error, a body that is no JSON, an answer without success, a
  text that cannot be read off the answer, a text that is no JSON), the result of
  \<open>parseAICommand\<close> is the result of the rule-based parser on the same input and
  nodes, it is the result obtained without any key, and it is a command, not an
  exception.
\<close>

theorem remote_failure_falls_back:
  "remoteFailed jsonParse apiKey reply \<Longrightarrow>
     parseAICommand jsonParse apiKey reply userInput nodes = getEnhancedMockResponse userInput nodes \<and>
     parseAICommand jsonParse apiKey reply userInput nodes =
       parseAICommand jsonParse None reply userInput nodes \<and>
     (\<exists>c. parseAICommand jsonParse apiKey reply userInput nodes = Inr c)"
  using mock_total [of userInput nodes]
  by (cases reply)
     (auto simp: remoteFailed_def parseAICommand_def truthy_def split: option.splits)

text \<open>A key is set and the answer is a text without JSON: the rule-based parser decides.\<close>

theorem remote_failure_falls_back_witness:
  "remoteFailed (\<lambda>s. None) (Some ''key'') (ApiData True (GeneratedText ''no json here'')) \<and>
   parseAICommand (\<lambda>s. None) (Some ''key'') (ApiData True (GeneratedText ''no json here''))
       ''add a node'' [startNode, endCallNode] =
     getEnhancedMockResponse ''add a node'' [startNode, endCallNode]"
  using remote_failure_falls_back [of "\<lambda>s. None" "Some ''key''"
          "ApiData True (GeneratedText ''no json here'')" "''add a node''" "[startNode, endCallNode]"]
  by (simp add: remoteFailed_def remoteText_def)

section \<open>The ends of a connect or disconnect\<close>

text \<open>
  Claim C4, at the inputs where the code departs from it.  With the nodes \<open>n1\<close>
  "Start" and \<open>n2\<close> "End Call", a draft \<open>connect_nodes\<close> whose source is
  \<open>start\<close> (the label but for its case) or whose target is \<open>end\<close> (a fragment
  of the label) becomes \<open>unknown\<close>: the ends are looked up by id or by the exact
  label only.  The same references in a draft \<open>delete_node\<close> are resolved, to
  \<open>n1\<close> and to \<open>n2\<close>.
\<close>

theorem connect_ends_resolved_by_exact_text_only:
  "validateAndResolveCommand
     ((cmd connect_nodes)\<lparr>sourceNodeId := Some ''start'', targetNodeId := Some ''n2''\<rparr>)
     [startNode, endCallNode] =
     (cmd unknown)\<lparr>message := Some ''Could not find one or both nodes to connect/disconnect.''\<rparr> \<and>
   validateAndResolveCommand
     ((cmd connect_nodes)\<lparr>sourceNodeId := Some ''n1'', targetNodeId := Some ''end''\<rparr>)
     [startNode, endCallNode] =
     (cmd unknown)\<lparr>message := Some ''Could not find one or both nodes to connect/disconnect.''\<rparr> \<and>
   validateAndResolveCommand ((cmd delete_node)\<lparr>nodeId := Some ''start''\<rparr>) [startNode, endCallNode] =
     (cmd delete_node)\<lparr>nodeId := Some ''n1''\<rparr> \<and>
   validateAndResolveCommand ((cmd delete_node)\<lparr>nodeId := Some ''end''\<rparr>) [startNode, endCallNode] =
     (cmd delete_node)\<lparr>nodeId := Some ''n2''\<rparr>"
  by (simp add: validator_defs example_nodes str_defs)

section \<open>Fuzzy resolution of a label\<close>

text \<open>
  Claim C5, as stated, fails.  The search text \<open>the\<close> has no token left when the
  stop words are discarded, and yet the delete branch finds the node "Other" by it,
  past the node "Start" that stands first: when nothing else is left the stop words
  are kept, and \<open>other\<close> contains \<open>the\<close>.  The validator discards no stop word
  at all: for \<open>the end\<close> it finds "Other", by the token \<open>the\<close>, where the
  claim's resolution finds "End Call".  The input "delete node the" reaches the
  search of the delete branch with the text \<open>the\<close> and deletes "Other".
\<close>

theorem fuzzy_resolution_keeps_stop_words:
  "filter (\<lambda>t. t \<notin> set stopWords) (tokens ''the'') = [] \<and>
   findByLabelText ''the'' [startNode, \<lparr>id' = ''n3'', label = ''Other'', index = 1\<rparr>] =
     Some \<lparr>id' = ''n3'', label = ''Other'', index = 1\<rparr> \<and>
   spec_resolveByFuzzyLabel ''the'' [startNode, \<lparr>id' = ''n3'', label = ''Other'', index = 1\<rparr>] =
     Some startNode \<and>
   nodeByLabel ''the end'' [\<lparr>id' = ''n3'', label = ''Other'', index = 0\<rparr>, endCallNode] =
     Some \<lparr>id' = ''n3'', label = ''Other'', index = 0\<rparr> \<and>
   spec_resolveByFuzzyLabel ''the end'' [\<lparr>id' = ''n3'', label = ''Other'', index = 0\<rparr>, endCallNode] =
     Some endCallNode \<and>
   getEnhancedMockResponse ''delete node the'' [startNode, \<lparr>id' = ''n3'', label = ''Other'', index = 1\<rparr>] =
     Inr ((cmd delete_node)\<lparr>nodeId := Some ''n3''\<rparr>)"
  by (simp add: tokens_def spec_resolveByFuzzyLabel_def spec_twoTiers_def parser_defs
      validator_defs str_defs rx_defs example_nodes)

text \<open>The two tiers of the specification are the two searches of the code.\<close>

lemma spec_twoTiers_code:
  "spec_twoTiers ts nodes =
     (case find (labelHasAll ts) nodes of Some n \<Rightarrow> Some n
      | None \<Rightarrow> find (labelHasAny (filter (\<lambda>t. 2 < length t) ts)) nodes)"
proof -
  have a: "(\<lambda>n. list_all (includes_str (toLowerCase (label n))) ts) = labelHasAll ts"
    by (rule ext) (simp add: labelHasAll_def)
  have b: "(\<lambda>n. list_ex (includes_str (toLowerCase (label n))) (filter (\<lambda>t. 2 < length t) ts)) =
           labelHasAny (filter (\<lambda>t. 2 < length t) ts)"
    by (rule ext) (simp add: labelHasAny_def)
  show ?thesis unfolding spec_twoTiers_def a b ..
qed

lemma find_labelHasAny_Nil: "find (labelHasAny []) nodes = None"
  by (induction nodes) (simp_all add: labelHasAny_def)

lemma findByLabelText_tiers:
  "findByLabelText searchLabel nodes =
     (case find (\<lambda>n. toLowerCase (label n) = searchLabel) nodes of
        Some n \<Rightarrow> Some n
      | None \<Rightarrow> if tokens searchLabel = [] then None
                else spec_twoTiers (keptTerms searchLabel) nodes)"
proof -
  let ?ts = "filter (\<lambda>t. length t > 0) (split_ws searchLabel)"
  have t: "tokens searchLabel = ?ts" by (simp add: tokens_def)
  show ?thesis
  proof (cases "?ts = []")
    case True
    then show ?thesis
      unfolding findByLabelText_def Let_def t by (simp split: option.splits)
  next
    case False
    let ?fs = "filter (\<lambda>t. t \<notin> set stopWords) ?ts"
    have k: "keptTerms searchLabel = (if ?fs = [] then ?ts else ?fs)"
      by (simp add: keptTerms_def t)
    have ne: "(if ?fs = [] then ?ts else ?fs) \<noteq> []" using False by simp
    show ?thesis
      unfolding findByLabelText_def Let_def t k spec_twoTiers_code
      using False ne
      by (auto split: option.splits simp: find_labelHasAny_Nil)
  qed
qed

lemma nodeByLabel_tiers:
  "nodeByLabel ref nodes =
     (case find (\<lambda>n. toLowerCase (label n) = toLowerCase ref) nodes of
        Some n \<Rightarrow> Some n
      | None \<Rightarrow> spec_twoTiers (tokens (toLowerCase ref)) nodes)"
proof -
  have "filter (\<lambda>t. 2 < length t) (filter (\<lambda>t. t \<noteq> []) xs) = filter (\<lambda>t. 2 < length t) xs"
    for xs :: "string list"
    by (induction xs) auto
  then show ?thesis
    by (simp add: nodeByLabel_def spec_twoTiers_code tokens_def split: option.splits)
qed

text \<open>
  Claim C5, amended.  For every search text and every list of nodes, the delete
  branch first takes the first node whose lower-cased label is the search text; else
  it cuts the text into tokens at white space, discards the stop words unless every
  token is one (then it keeps them all), and returns in tier 1 the first node, in
  the order of the list, whose lower-cased label contains every kept token, and only
  if tier 1 finds nothing, in tier 2 the first node whose label contains some kept
  token longer than two characters; no match at any tier, or a text without tokens,
  is not found.  The validator has the same tiers over all the tokens of the
  lower-cased reference, with no stop words.  With the nodes \<open>n1\<close> "Start" and
  \<open>n2\<close> "End Call", the input "delete the end call node" gives
  \<open>delete_node\<close> of \<open>n2\<close>.
\<close>

theorem fuzzy_resolution_tiers:
  "findByLabelText searchLabel nodes =
     (case find (\<lambda>n. toLowerCase (label n) = searchLabel) nodes of
        Some n \<Rightarrow> Some n
      | None \<Rightarrow> if tokens searchLabel = [] then None
                else spec_twoTiers (keptTerms searchLabel) nodes) \<and>
   nodeByLabel ref nodes =
     (case find (\<lambda>n. toLowerCase (label n) = toLowerCase ref) nodes of
        Some n \<Rightarrow> Some n
      | None \<Rightarrow> spec_twoTiers (tokens (toLowerCase ref)) nodes) \<and>
   getEnhancedMockResponse ''delete the end call node'' [startNode, endCallNode] =
     Inr ((cmd delete_node)\<lparr>nodeId := Some ''n2''\<rparr>)"
proof -
  have "getEnhancedMockResponse ''delete the end call node'' [startNode, endCallNode] =
     Inr ((cmd delete_node)\<lparr>nodeId := Some ''n2''\<rparr>)"
    by (simp add: rx_defs str_defs parser_defs example_nodes)
  with findByLabelText_tiers nodeByLabel_tiers show ?thesis by blast
qed

section \<open>The order of the triggers\<close>

text \<open>
  Claim C6, at the input where the code departs from it.  The input "remove the
  connection between node 1 and node 2" matches the trigger of the delete branch and
  the trigger of the disconnect branch; the delete branch comes first, and the
  answer is \<open>delete_node\<close> of \<open>n1\<close>.  Without the word "node" the same
  request reaches the disconnect branch.
\<close>

theorem delete_trigger_shadows_disconnect:
  "rx_exec False deleteTrigger ''remove the connection between node 1 and node 2'' \<noteq> None \<and>
   rx_exec False disconnectTrigger ''remove the connection between node 1 and node 2'' \<noteq> None \<and>
   getEnhancedMockResponse ''remove the connection between node 1 and node 2''
     [startNode, endCallNode] = Inr ((cmd delete_node)\<lparr>nodeId := Some ''n1''\<rparr>) \<and>
   getEnhancedMockResponse ''remove the connection between 1 and 2''
     [startNode, endCallNode] =
     Inr ((cmd disconnect_nodes)\<lparr>sourceNodeId := Some ''n1'', targetNodeId := Some ''n2''\<rparr>)"
  by (simp add: rx_defs str_defs parser_defs example_nodes)

section \<open>Ordinals\<close>

text \<open>
  Strings of digits: the atoms that accept them, how the greedy quantifiers run
  over them, and how \<open>parseInt\<close> reads the decimal number back.
\<close>

lemma digit_cases:
  "isDigit d \<Longrightarrow> d = CHR ''0'' \<or> d = CHR ''1'' \<or> d = CHR ''2'' \<or> d = CHR ''3'' \<or> d = CHR ''4'' \<or>
     d = CHR ''5'' \<or> d = CHR ''6'' \<or> d = CHR ''7'' \<or> d = CHR ''8'' \<or> d = CHR ''9''"
  by (simp add: isDigit_def)

lemma digit_lower: "isDigit d \<Longrightarrow> lowerChar d = d"
  by (drule digit_cases) (auto simp: lowerChar_def isUpper_def)

lemma digit_not_space: "isDigit d \<Longrightarrow> \<not> isSpace d"
  by (drule digit_cases) (auto simp: isSpace_def)

lemma digit_atoms:
  "isDigit d \<Longrightarrow> atom_ok ci Digit d"
  "isDigit d \<Longrightarrow> atom_ok ci Dot d"
  "isDigit d \<Longrightarrow> \<not> atom_ok ci Space d"
  "isDigit d \<Longrightarrow> atom_ok ci (NoneOf [CHR 0x22, CHR 0x27]) d"
  "isDigit d \<Longrightarrow> \<not> atom_ok ci (OneOf [CHR 0x22, CHR 0x27]) d"
  by (auto dest!: digit_cases simp: isDigit_def isSpace_def)

lemma star_stop:
  "s = [] \<or> \<not> atom_ok ci a (hd s) \<Longrightarrow> rx_m ci (Star True (Atom a)) s c k = k s c"
  by (cases s) auto

lemma star_greedy:
  "list_all (atom_ok ci a) ds \<Longrightarrow> rest = [] \<or> \<not> atom_ok ci a (hd rest) \<Longrightarrow> k rest c = Some r \<Longrightarrow>
   rx_m ci (Star True (Atom a)) (ds @ rest) c k = Some r"
proof (induction ds)
  case Nil
  have "rx_m ci (Star True (Atom a)) rest c k = k rest c"
    using Nil.prems(2) by (rule star_stop)
  with Nil.prems(3) show ?case by (simp only: append_Nil)
next
  case (Cons d ds)
  then have "rx_m ci (Star True (Atom a)) (ds @ rest) c k = Some r" by simp
  with Cons.prems(1) show ?case by simp
qed

lemma group_greedy:
  assumes "ds \<noteq> []" and "list_all (atom_ok ci a) ds"
    and "rest = [] \<or> \<not> atom_ok ci a (hd rest)"
    and "k rest (c(i \<mapsto> ds)) = Some r"
  shows "rx_m ci (Group i (oneOrMore (Atom a))) (ds @ rest) c k = Some r"
proof -
  from assms(1) obtain d ds' where ds: "ds = d # ds'" by (cases ds) auto
  let ?k = "\<lambda>s' c'. k s' (c'(i \<mapsto> take (length (ds @ rest) - length s') (ds @ rest)))"
  have "?k rest c = Some r" using assms(4) by simp
  with assms(2,3) ds have "rx_m ci (Star True (Atom a)) (ds' @ rest) c ?k = Some r"
    by (intro star_greedy) auto
  with assms(2) ds show ?thesis by (simp add: oneOrMore_def)
qed

lemma anything_last:
  "list_all (atom_ok ci Dot) s \<Longrightarrow> k [] c = None \<Longrightarrow>
   (\<And>x t. x \<in> set (tl s) \<Longrightarrow> k (x # t) c = None) \<Longrightarrow>
   rx_m ci anything s c k = k s c"
proof (induction s)
  case Nil
  then show ?case by (simp add: anything_def)
next
  case (Cons x xs)
  have "rx_m ci anything xs c k = k xs c"
  proof (rule Cons.IH)
    show "list_all (atom_ok ci Dot) xs" using Cons.prems(1) by (simp del: atom_ok.simps)
    show "k [] c = None" by fact
    show "k (y # t) c = None" if "y \<in> set (tl xs)" for y t
      using that Cons.prems(3)[of y t] by (cases xs) auto
  qed
  moreover have "k xs c = None"
  proof (cases xs)
    case Nil
    with Cons.prems(2) show ?thesis by simp
  next
    case (Cons y ys)
    with Cons.prems(3)[of y ys] show ?thesis by simp
  qed
  ultimately show ?case using Cons.prems(1) by (simp add: anything_def)
qed

lemma anything_prefix:
  "list_all (atom_ok ci Dot) pre \<Longrightarrow> rx_m ci anything s c k = Some r \<Longrightarrow>
   rx_m ci anything (pre @ s) c k = Some r"
  by (induction pre) (auto simp: anything_def)

lemma anything_reach:
  "list_all (atom_ok ci Dot) pre \<Longrightarrow> k s c \<noteq> None \<Longrightarrow> rx_m ci anything (pre @ s) c k \<noteq> None"
proof (induction pre)
  case Nil
  then show ?case
    by (cases s) (auto simp: anything_def split: option.splits)
next
  case (Cons x pre)
  then show ?case by (auto simp: anything_def split: option.splits)
qed

lemma rx_exec_skip:
  assumes "list_all isDigit ds"
    and "\<And>d s. isDigit d \<Longrightarrow> rx_m ci r (d # s) Map.empty (\<lambda>s' c'. Some c') = None"
  shows "rx_exec ci r (ds @ rest) = rx_exec ci r rest"
  using assms(1) by (induction ds) (simp_all add: assms(2))

lemma digitVal_nth: "k < 10 \<Longrightarrow> digitVal (''0123456789'' ! k) = int k"
proof -
  have "\<forall>k \<in> set [0..<10]. digitVal (''0123456789'' ! k) = int k"
    by (simp add: upt_rec digitVal_def)
  then show "k < 10 \<Longrightarrow> digitVal (''0123456789'' ! k) = int k" by simp
qed

lemma isDigit_nth: "k < 10 \<Longrightarrow> isDigit (''0123456789'' ! k)"
  unfolding isDigit_def by (rule nth_mem) simp

lemma string_of_nat_digits: "list_all isDigit (string_of_nat n) \<and> string_of_nat n \<noteq> []"
proof (induction n rule: string_of_nat.induct)
  case (1 n)
  show ?case
  proof (cases "n < 10")
    case True
    then show ?thesis by (subst (1 2) string_of_nat.simps) (simp add: isDigit_nth)
  next
    case False
    with 1 show ?thesis by (subst (1 2) string_of_nat.simps) (simp add: isDigit_nth)
  qed
qed

lemma string_of_nat_value:
  "foldl (\<lambda>n c. 10 * n + digitVal c) 0 (string_of_nat n) = int n"
proof (induction n rule: string_of_nat.induct)
  case (1 n)
  show ?case
  proof (cases "n < 10")
    case True
    then show ?thesis by (subst string_of_nat.simps) (simp add: digitVal_nth)
  next
    case False
    with 1 have "foldl (\<lambda>n c. 10 * n + digitVal c) 0 (string_of_nat (n div 10)) = int (n div 10)"
      by simp
    with False show ?thesis
      by (subst string_of_nat.simps) (simp add: digitVal_nth zdiv_int zmod_int)
  qed
qed

lemma takeWhile_all: "list_all P xs \<Longrightarrow> takeWhile P xs = xs"
  by (induction xs) auto

lemma parseInt_string_of_nat: "parseInt (Some (string_of_nat n)) = Some (int n)"
proof -
  obtain d ds where s: "string_of_nat n = d # ds"
    using string_of_nat_digits[of n] by (cases "string_of_nat n") auto
  have "takeWhile isDigit (string_of_nat n) = string_of_nat n"
    using string_of_nat_digits[of n] by (simp add: takeWhile_all)
  with s string_of_nat_value[of n] show ?thesis by (simp add: parseInt_def)
qed

text \<open>Where a literal word, and a pattern that begins with one, cannot match.\<close>

lemma lower_digits: "list_all isDigit ds \<Longrightarrow> toLowerCase ds = ds"
  by (induction ds) (auto simp: toLowerCase_def digit_lower)

lemma trim_id: "s \<noteq> [] \<Longrightarrow> \<not> isSpace (hd s) \<Longrightarrow> \<not> isSpace (last s) \<Longrightarrow> trim s = s"
proof -
  assume a: "s \<noteq> []" "\<not> isSpace (hd s)" "\<not> isSpace (last s)"
  then have "dropWhile isSpace s = s" by (cases s) auto
  moreover from a have "dropWhile isSpace (rev s) = rev s"
    by (cases "rev s") (auto simp: hd_rev)
  ultimately show ?thesis by (simp add: trim_def)
qed

lemma digits_last: "ds \<noteq> [] \<Longrightarrow> list_all isDigit ds \<Longrightarrow> isDigit (last ds)"
  by (simp add: list_all_iff)

lemma digits_hd: "ds \<noteq> [] \<Longrightarrow> list_all isDigit ds \<Longrightarrow> isDigit (hd ds)"
  by (simp add: list_all_iff)

lemma str_fail:
  "w \<noteq> [] \<Longrightarrow> \<not> startsWith (if ci then toLowerCase s else s) (if ci then toLowerCase w else w) \<Longrightarrow>
   rx_m ci (str w) s c k = None"
proof (induction w arbitrary: s k rule: str.induct)
  case 1
  then show ?case by simp
next
  case (2 x)
  then show ?case by (cases s) (auto simp: toLowerCase_def split: if_splits)
next
  case (3 x y ys)
  show ?case
  proof (cases s)
    case Nil
    then show ?thesis by simp
  next
    case (Cons a t)
    show ?thesis
    proof (cases "atom_ok ci (Lit x) a")
      case False
      with Cons show ?thesis by simp
    next
      case True
      with Cons "3.prems"(2)
      have "\<not> startsWith (if ci then toLowerCase t else t) (if ci then toLowerCase (y # ys) else y # ys)"
        by (auto simp: toLowerCase_def split: if_splits)
      then have "rx_m ci (str (y # ys)) t c k = None" by (intro "3.IH") auto
      with Cons True show ?thesis by simp
    qed
  qed
qed

lemma words_fail:
  "ws \<noteq> [] \<Longrightarrow> [] \<notin> set ws \<Longrightarrow>
   \<forall>w \<in> set ws. \<not> startsWith (if ci then toLowerCase s else s) (if ci then toLowerCase w else w) \<Longrightarrow>
   rx_m ci (words ws) s c k = None"
proof (induction ws)
  case Nil
  then show ?case by simp
next
  case (Cons w ws)
  show ?case
  proof (cases ws)
    case Nil
    with Cons.prems show ?thesis by (simp add: words_def str_fail)
  next
    case (Cons v vs)
    with Cons.prems Cons.IH have "rx_m ci (words ws) s c k = None" by simp
    moreover from Cons.prems have "rx_m ci (str w) s c k = None" by (intro str_fail) auto
    ultimately show ?thesis using Cons by (simp add: words_def)
  qed
qed

text \<open>A pattern that begins with one of its words fails where none of them begins.\<close>

lemma head_words_fail:
  assumes "ws \<noteq> []" "[] \<notin> set ws"
    and "\<forall>w \<in> set ws. \<not> startsWith (if ci then toLowerCase s else s) (if ci then toLowerCase w else w)"
  shows "rx_m ci (Seq (words ws) r) s c k = None"
    and "rx_m ci (Seq (Group i (words ws)) r) s c k = None"
    and "rx_m ci (Group i (words ws)) s c k = None"
  using assms by (simp_all add: words_fail)

lemma startsWith_digit:
  "isDigit d \<Longrightarrow> w \<noteq> [] \<Longrightarrow> \<not> isDigit (hd w) \<Longrightarrow> \<not> startsWith (d # s) w"
  by (cases w) auto

lemma atom_Digit_eq: "atom_ok ci Digit = isDigit"
  by (rule ext) simp

lemma digits_dot: "list_all isDigit ds \<Longrightarrow> list_all (atom_ok ci Dot) ds"
  by (simp add: list_all_iff digit_atoms del: atom_ok.simps)

lemma digits_notQuote: "list_all isDigit ds \<Longrightarrow> list_all (atom_ok ci (NoneOf [CHR 0x22, CHR 0x27])) ds"
  by (simp add: list_all_iff digit_atoms del: atom_ok.simps)

lemma rx_exec_hit: "rx_m ci r s Map.empty (\<lambda>s' c'. Some c') = Some m \<Longrightarrow> rx_exec ci r s = Some m"
  by (cases s) auto

lemma rx_exec_none_one:
  assumes "list_all isDigit A"
    and "\<And>d s. isDigit d \<Longrightarrow> rx_m ci r (d # s) Map.empty (\<lambda>s' c'. Some c') = None"
    and "rx_m ci r [] Map.empty (\<lambda>s' c'. Some c') = None"
    and "\<And>s. rx_exec ci r (pre @ s) = rx_exec ci r s"
  shows "rx_exec ci r (pre @ A) = None"
proof -
  have "rx_exec ci r (A @ []) = rx_exec ci r []" using assms(1,2) by (rule rx_exec_skip)
  with assms(3,4) show ?thesis by simp
qed

lemma rx_exec_none_two:
  assumes "list_all isDigit A" and "list_all isDigit B"
    and "\<And>d s. isDigit d \<Longrightarrow> rx_m ci r (d # s) Map.empty (\<lambda>s' c'. Some c') = None"
    and "rx_m ci r [] Map.empty (\<lambda>s' c'. Some c') = None"
    and "\<And>s. rx_exec ci r (pre @ s) = rx_exec ci r s"
    and "\<And>s. rx_exec ci r (mid @ s) = rx_exec ci r s"
  shows "rx_exec ci r (pre @ A @ mid @ B) = None"
proof -
  have "rx_exec ci r (A @ mid @ B) = rx_exec ci r (mid @ B)" using assms(1,3) by (rule rx_exec_skip)
  moreover have "rx_exec ci r (B @ []) = rx_exec ci r []" using assms(2,3) by (rule rx_exec_skip)
  ultimately show ?thesis using assms(4,5,6) by simp
qed

text \<open>Where the triggers and the label patterns cannot begin.\<close>

lemma addTrigger_fail:
  "\<not> startsWith s ''add'' \<Longrightarrow> \<not> startsWith s ''create'' \<Longrightarrow> \<not> startsWith s ''new'' \<Longrightarrow>
   \<not> startsWith s ''make'' \<Longrightarrow> \<not> startsWith s ''insert'' \<Longrightarrow> rx_m False addTrigger s c k = None"
  by (simp add: addTrigger_def words_fail)

lemma deleteTrigger_fail:
  "\<not> startsWith s ''delete'' \<Longrightarrow> \<not> startsWith s ''remove'' \<Longrightarrow> \<not> startsWith s ''drop'' \<Longrightarrow>
   \<not> startsWith s ''eliminate'' \<Longrightarrow> \<not> startsWith s ''get rid of'' \<Longrightarrow>
   rx_m False deleteTrigger s c k = None"
  by (simp add: deleteTrigger_def words_fail)

lemma updateTrigger_fail:
  "\<not> startsWith s ''update'' \<Longrightarrow> \<not> startsWith s ''change'' \<Longrightarrow> \<not> startsWith s ''edit'' \<Longrightarrow>
   \<not> startsWith s ''modify'' \<Longrightarrow> \<not> startsWith s ''rename'' \<Longrightarrow>
   rx_m False updateTrigger s c k = None"
  by (simp add: updateTrigger_def words_fail)

lemma nodeWord_fail:
  "\<not> startsWith (toLowerCase s) ''node'' \<Longrightarrow> \<not> startsWith (toLowerCase s) ''step'' \<Longrightarrow>
   \<not> startsWith (toLowerCase s) ''state'' \<Longrightarrow> rx_m True nodeWord s c k = None"
  using words_fail[of "[''node'', ''step'', ''state'']" True s c k]
  by (simp add: nodeWord_def toLowerCase_def lowerChar_def isUpper_def)

lemma twoNodeNumbers_fail:
  "\<not> startsWith (toLowerCase s) ''node'' \<Longrightarrow> \<not> startsWith (toLowerCase s) ''step'' \<Longrightarrow>
   \<not> startsWith (toLowerCase s) ''state'' \<Longrightarrow> rx_m True twoNodeNumbers s c k = None"
  by (simp add: twoNodeNumbers_def nodeWord_fail)

lemma numberedNode_fail:
  "\<not> startsWith (toLowerCase s) ''node'' \<Longrightarrow> \<not> startsWith (toLowerCase s) ''step'' \<Longrightarrow>
   \<not> startsWith (toLowerCase s) ''state'' \<Longrightarrow> rx_m True numberedNode s c k = None"
  by (simp add: numberedNode_def nodeWord_fail)

lemma deleteLabel2_fail:
  "\<not> startsWith (toLowerCase s) ''node'' \<Longrightarrow> \<not> startsWith (toLowerCase s) ''step'' \<Longrightarrow>
   \<not> startsWith (toLowerCase s) ''state'' \<Longrightarrow> rx_m True deleteLabel2 s c k = None"
  by (simp add: deleteLabel2_def nodeWord_fail)

lemma deleteLabel1_fail:
  "\<not> startsWith (toLowerCase s) ''the'' \<Longrightarrow> \<not> startsWith (toLowerCase s) ''a'' \<Longrightarrow>
   \<not> startsWith (toLowerCase s) ''an'' \<Longrightarrow> rx_m True deleteLabel1 s c k = None"
  using words_fail[of "[''the'', ''a'', ''an'']" True s]
  by (simp add: deleteLabel1_def toLowerCase_def lowerChar_def isUpper_def)

lemma lower_digit_cons: "isDigit d \<Longrightarrow> toLowerCase (d # s) = d # toLowerCase s"
  by (simp add: toLowerCase_def digit_lower)

lemmas pattern_fail = addTrigger_fail deleteTrigger_fail updateTrigger_fail twoNodeNumbers_fail
  numberedNode_fail deleteLabel2_fail deleteLabel1_fail

lemma pattern_digit:
  assumes "isDigit d"
  shows "rx_m False addTrigger (d # s) c k = None"
    and "rx_m False deleteTrigger (d # s) c k = None"
    and "rx_m False updateTrigger (d # s) c k = None"
    and "rx_m True twoNodeNumbers (d # s) c k = None"
    and "rx_m True numberedNode (d # s) c k = None"
    and "rx_m True deleteLabel2 (d # s) c k = None"
    and "rx_m True deleteLabel1 (d # s) c k = None"
  using assms
  by (auto intro!: pattern_fail dest!: digit_cases simp: lower_digit_cons isDigit_def)

lemma pattern_nil:
  "rx_m False addTrigger [] c k = None"
  "rx_m False deleteTrigger [] c k = None"
  "rx_m False updateTrigger [] c k = None"
  "rx_m True twoNodeNumbers [] c k = None"
  "rx_m True numberedNode [] c k = None"
  "rx_m True deleteLabel2 [] c k = None"
  "rx_m True deleteLabel1 [] c k = None"
  by (simp_all add: pattern_fail toLowerCase_def)

lemmas lower_eval = toLowerCase_def lowerChar_def isUpper_def

text \<open>The input "connect node A to node B" for two numbers.\<close>

lemma connect_input_triggers:
  assumes "list_all isDigit A" and "list_all isDigit B"
  shows "rx_exec False addTrigger (''connect node '' @ A @ '' to node '' @ B) = None"
    and "rx_exec False deleteTrigger (''connect node '' @ A @ '' to node '' @ B) = None"
    and "rx_exec False updateTrigger (''connect node '' @ A @ '' to node '' @ B) = None"
proof -
  show "rx_exec False addTrigger (''connect node '' @ A @ '' to node '' @ B) = None"
    by (rule rx_exec_none_two[OF assms]) (simp_all add: pattern_digit pattern_nil pattern_fail)
  show "rx_exec False deleteTrigger (''connect node '' @ A @ '' to node '' @ B) = None"
    by (rule rx_exec_none_two[OF assms]) (simp_all add: pattern_digit pattern_nil pattern_fail)
  show "rx_exec False updateTrigger (''connect node '' @ A @ '' to node '' @ B) = None"
    by (rule rx_exec_none_two[OF assms]) (simp_all add: pattern_digit pattern_nil pattern_fail)
qed

lemma delete_input_triggers:
  assumes "list_all isDigit A"
  shows "rx_exec False addTrigger (''delete node '' @ A) = None"
    and "rx_exec True deleteLabel1 (''delete node '' @ A) = None"
proof -
  show "rx_exec False addTrigger (''delete node '' @ A) = None"
    by (rule rx_exec_none_one[OF assms]) (simp_all add: pattern_digit pattern_nil pattern_fail)
  show "rx_exec True deleteLabel1 (''delete node '' @ A) = None"
    by (rule rx_exec_none_one[OF assms])
       (simp_all add: pattern_digit pattern_nil pattern_fail lower_eval)
qed

text \<open>
  The matches of the patterns on the inputs with numbers, followed through the
  backtracking matcher piece by piece.
\<close>

lemma str_match: "w \<noteq> [] \<Longrightarrow> rx_m ci (str w) (w @ rest) c k = k rest c"
  by (induction w arbitrary: k rule: str.induct) auto

lemma word_first_match:
  "w \<noteq> [] \<Longrightarrow> k rest c = Some r \<Longrightarrow> rx_m ci (words (w # ws)) (w @ rest) c k = Some r"
  by (cases ws) (simp_all add: words_def str_match)

lemma anything_last_some:
  "list_all (atom_ok ci Dot) s \<Longrightarrow> k [] c = None \<Longrightarrow>
   (\<And>x t. x \<in> set (tl s) \<Longrightarrow> k (x # t) c = None) \<Longrightarrow> k s c = Some r \<Longrightarrow>
   rx_m ci anything s c k = Some r"
  using anything_last[of ci s k c] by simp

lemma rx_exec_some: "rx_m ci r s Map.empty (\<lambda>s' c'. Some c') = Some m \<Longrightarrow> rx_exec ci r s \<noteq> None"
  by (cases s) auto

lemma optional_quote_skip:
  "s = [] \<or> \<not> atom_ok ci (OneOf [CHR 0x22, CHR 0x27]) (hd s) \<Longrightarrow> k s c = Some r \<Longrightarrow>
   rx_m ci (optional quote) s c k = Some r"
  by (cases s) (auto simp: optional_def quote_def)

lemma spaces_greedy:
  assumes "ds \<noteq> []" and "list_all (atom_ok ci Space) ds"
    and "rest = [] \<or> \<not> atom_ok ci Space (hd rest)" and "k rest c = Some r"
  shows "rx_m ci spaces (ds @ rest) c k = Some r"
proof -
  from assms(1) obtain d ds' where ds: "ds = d # ds'" by (cases ds) auto
  with assms have "rx_m ci (Star True (Atom Space)) (ds' @ rest) c k = Some r"
    by (intro star_greedy) auto
  with assms(2) ds show ?thesis by (simp add: spaces_def oneOrMore_def)
qed

lemma nodeWords_fail_head:
  assumes "x = CHR ''o'' \<or> x = CHR ''d'' \<or> x = CHR ''e'' \<or> x = CHR '' '' \<or> isDigit x"
  shows "rx_m ci (words [''node'', ''step'', ''state'']) (x # t) c k = None"
proof (rule words_fail)
  show "\<forall>w \<in> set [''node'', ''step'', ''state''].
          \<not> startsWith (if ci then toLowerCase (x # t) else x # t) (if ci then toLowerCase w else w)"
    using assms by (auto dest!: digit_cases simp: lower_eval)
qed simp_all

lemma nodeWords_fail_nil: "rx_m ci (words [''node'', ''step'', ''state'']) [] c k = None"
  by (rule words_fail) (simp_all add: toLowerCase_def)

lemma twoNodeNumbers_match:
  assumes A: "A \<noteq> []" "list_all isDigit A" and B: "B \<noteq> []" "list_all isDigit B"
  shows "rx_m True twoNodeNumbers (''node'' @ '' '' @ A @ '' to '' @ ''node'' @ '' '' @ B @ [])
           Map.empty (\<lambda>s' c'. Some c') = Some [1 \<mapsto> A, 2 \<mapsto> B]"
  unfolding twoNodeNumbers_def seqs.simps rx_m.simps(5) nodeWord_def
  apply (rule word_first_match, simp)
  apply (rule star_greedy)
    apply (simp add: isSpace_def)
   apply (simp add: A digits_hd digit_not_space)
  apply (rule group_greedy)
     apply (rule A)
    apply (simp add: A atom_Digit_eq)
   apply (simp add: isDigit_def)
  apply (rule anything_prefix)
   apply simp
  apply (rule anything_last_some)
     apply (simp add: B digits_dot del: atom_ok.simps)
     apply simp
    apply (rule nodeWords_fail_nil)
   apply (rule nodeWords_fail_head)
   apply (use B(2) in \<open>auto simp: list_all_iff\<close>)[1]
  apply (rule word_first_match, simp)
  apply (rule star_greedy)
    apply (simp add: isSpace_def)
   apply (simp add: B digits_hd digit_not_space)
  apply (rule group_greedy)
     apply (rule B)
    apply (simp add: B atom_Digit_eq)
   apply simp
  apply simp
  done

lemma take_matched: "take (length (w @ rest) - length rest) (w @ rest) = w"
  by simp

lemma connectTrigger_match:
  assumes A: "list_all isDigit A" and B: "list_all isDigit B"
  shows "\<exists>m. rx_m False connectTrigger
           (''connect'' @ ('' node '' @ A @ '' to '') @ ''node'' @ '' '' @ B)
           Map.empty (\<lambda>s' c'. Some c') = Some m"
  unfolding connectTrigger_def seqs.simps rx_m.simps(5) rx_m.simps(9) nodeWord_def
  apply (rule exI)
  apply (rule word_first_match, simp)
  apply (rule anything_prefix)
   apply (simp add: A digits_dot del: atom_ok.simps)
   apply simp
  apply (rule anything_last_some)
     apply (simp add: B digits_dot del: atom_ok.simps)
     apply simp
    apply (rule nodeWords_fail_nil)
   apply (rule nodeWords_fail_head)
   apply (use B in \<open>auto simp: list_all_iff\<close>)[1]
  apply (rule word_first_match, simp)
  apply (rule refl)
  done

lemma deleteTrigger_match:
  assumes A: "list_all isDigit A"
  shows "\<exists>m. rx_m False deleteTrigger (''delete'' @ '' '' @ ''node'' @ '' '' @ A)
           Map.empty (\<lambda>s' c'. Some c') = Some m"
  unfolding deleteTrigger_def seqs.simps rx_m.simps(5) rx_m.simps(9) nodeWord_def
  apply (rule exI)
  apply (rule word_first_match, simp)
  apply (rule anything_prefix)
   apply simp
  apply (rule anything_last_some)
     apply (simp add: A digits_dot del: atom_ok.simps)
     apply simp
    apply (rule nodeWords_fail_nil)
   apply (rule nodeWords_fail_head)
   apply (use A in \<open>auto simp: list_all_iff\<close>)[1]
  apply (rule word_first_match, simp)
  apply (rule refl)
  done

lemma numberedNode_match:
  assumes A: "A \<noteq> []" "list_all isDigit A"
  shows "rx_m True numberedNode (''node'' @ '' '' @ A @ []) Map.empty (\<lambda>s' c'. Some c') =
           Some [1 \<mapsto> A]"
  unfolding numberedNode_def seqs.simps rx_m.simps(5) nodeWord_def
  apply (rule word_first_match, simp)
  apply (rule star_greedy)
    apply (simp add: isSpace_def)
   apply (simp add: A digits_hd digit_not_space)
  apply (rule group_greedy)
     apply (rule A)
    apply (simp add: A atom_Digit_eq)
   apply simp
  apply simp
  done

lemma deleteLabel2_match:
  assumes A: "A \<noteq> []" "list_all isDigit A"
  shows "rx_m True deleteLabel2 (''node'' @ '' '' @ A @ []) Map.empty (\<lambda>s' c'. Some c') =
           Some [1 \<mapsto> A]"
  unfolding deleteLabel2_def seqs.simps rx_m.simps(5) nodeWord_def notQuote_def
  apply (rule word_first_match, simp)
  apply (rule spaces_greedy)
     apply simp
    apply (simp add: isSpace_def)
   apply (simp add: A digits_hd digit_not_space)
  apply (rule optional_quote_skip)
   apply (simp add: A digits_hd digit_atoms del: atom_ok.simps)
  apply (rule group_greedy)
     apply (rule A)
    apply (simp add: A digits_notQuote del: atom_ok.simps)
   apply simp
  apply (rule optional_quote_skip)
   apply simp
  apply simp
  done

text \<open>The patterns on the whole inputs.\<close>

lemma connect_input_matches:
  assumes A: "A \<noteq> []" "list_all isDigit A" and B: "B \<noteq> []" "list_all isDigit B"
  shows "rx_exec False connectTrigger (''connect node '' @ A @ '' to node '' @ B) \<noteq> None"
    and "rx_exec True twoNodeNumbers (''connect node '' @ A @ '' to node '' @ B) = Some [1 \<mapsto> A, 2 \<mapsto> B]"
proof -
  from connectTrigger_match[OF A(2) B(2)] obtain m where
    "rx_m False connectTrigger (''connect node '' @ A @ '' to node '' @ B) Map.empty (\<lambda>s' c'. Some c') = Some m"
    by auto
  then show "rx_exec False connectTrigger (''connect node '' @ A @ '' to node '' @ B) \<noteq> None"
    by (rule rx_exec_some)
  have "rx_exec True twoNodeNumbers (''connect '' @ s) = rx_exec True twoNodeNumbers s" for s
    by (simp add: pattern_fail lower_eval)
  from this[of "''node'' @ '' '' @ A @ '' to '' @ ''node'' @ '' '' @ B @ []"]
    rx_exec_hit[OF twoNodeNumbers_match[OF A B]]
  show "rx_exec True twoNodeNumbers (''connect node '' @ A @ '' to node '' @ B) = Some [1 \<mapsto> A, 2 \<mapsto> B]"
    by simp
qed

lemma delete_input_matches:
  assumes A: "A \<noteq> []" "list_all isDigit A"
  shows "rx_exec False deleteTrigger (''delete node '' @ A) \<noteq> None"
    and "rx_exec True numberedNode (''delete node '' @ A) = Some [1 \<mapsto> A]"
    and "rx_exec True deleteLabel2 (''delete node '' @ A) = Some [1 \<mapsto> A]"
proof -
  from deleteTrigger_match[OF A(2)] obtain m where
    "rx_m False deleteTrigger (''delete node '' @ A) Map.empty (\<lambda>s' c'. Some c') = Some m"
    by auto
  then show "rx_exec False deleteTrigger (''delete node '' @ A) \<noteq> None"
    by (rule rx_exec_some)
  have "rx_exec True numberedNode (''delete '' @ s) = rx_exec True numberedNode s" for s
    by (simp add: pattern_fail lower_eval)
  from this[of "''node'' @ '' '' @ A @ []"] rx_exec_hit[OF numberedNode_match[OF A]]
  show "rx_exec True numberedNode (''delete node '' @ A) = Some [1 \<mapsto> A]"
    by simp
  have "rx_exec True deleteLabel2 (''delete '' @ s) = rx_exec True deleteLabel2 s" for s
    by (simp add: pattern_fail lower_eval)
  from this[of "''node'' @ '' '' @ A @ []"] rx_exec_hit[OF deleteLabel2_match[OF A]]
  show "rx_exec True deleteLabel2 (''delete node '' @ A) = Some [1 \<mapsto> A]"
    by simp
qed

lemma connect_input_normal:
  assumes "list_all isDigit A" and "B \<noteq> []" and "list_all isDigit B"
  shows "trim (toLowerCase (''connect node '' @ A @ '' to node '' @ B)) =
           ''connect node '' @ A @ '' to node '' @ B"
proof -
  have "toLowerCase (''connect node '' @ A @ '' to node '' @ B) =
          ''connect node '' @ A @ '' to node '' @ B"
    using lower_digits[OF assms(1)] lower_digits[OF assms(3)]
    by (simp add: toLowerCase_def lowerChar_def isUpper_def)
  moreover have "trim (''connect node '' @ A @ '' to node '' @ B) =
          ''connect node '' @ A @ '' to node '' @ B"
    using assms(2) digit_not_space[OF digits_last[OF assms(2,3)]]
    by (intro trim_id) (simp_all add: isSpace_def)
  ultimately show ?thesis by simp
qed

lemma delete_input_normal:
  assumes "A \<noteq> []" and "list_all isDigit A"
  shows "trim (toLowerCase (''delete node '' @ A)) = ''delete node '' @ A"
    and "toLowerCase (trim A) = A"
proof -
  have "toLowerCase (''delete node '' @ A) = ''delete node '' @ A"
    using lower_digits[OF assms(2)] by (simp add: toLowerCase_def lowerChar_def isUpper_def)
  moreover have "trim (''delete node '' @ A) = ''delete node '' @ A"
    using assms(1) digit_not_space[OF digits_last[OF assms]]
    by (intro trim_id) (simp_all add: isSpace_def)
  ultimately show "trim (toLowerCase (''delete node '' @ A)) = ''delete node '' @ A" by simp
  have "trim A = A"
    using assms(1) digit_not_space[OF digits_last[OF assms]] digit_not_space[OF digits_hd[OF assms]]
    by (intro trim_id)
  with lower_digits[OF assms(2)] show "toLowerCase (trim A) = A" by simp
qed

lemma connect_numbers:
  assumes A: "A \<noteq> []" "list_all isDigit A" and B: "B \<noteq> []" "list_all isDigit B"
  shows "getEnhancedMockResponse (''connect node '' @ A @ '' to node '' @ B) nodes =
           Inr (connectBranch (''connect node '' @ A @ '' to node '' @ B) nodes)"
    and "twoNodes (''connect node '' @ A @ '' to node '' @ B) nodes =
           (case nodeAt nodes (parseInt (Some A)) of
              None \<Rightarrow> None
            | Some sourceNode \<Rightarrow>
                (case nodeAt nodes (parseInt (Some B)) of
                   None \<Rightarrow> None
                 | Some targetNode \<Rightarrow> Some (sourceNode, targetNode)))"
proof -
  show "getEnhancedMockResponse (''connect node '' @ A @ '' to node '' @ B) nodes =
           Inr (connectBranch (''connect node '' @ A @ '' to node '' @ B) nodes)"
    unfolding getEnhancedMockResponse_def connect_input_normal[OF A(2) B] Let_def
    using connect_input_triggers[OF A(2) B(2)] connect_input_matches(1)[OF A B]
    by simp
  show "twoNodes (''connect node '' @ A @ '' to node '' @ B) nodes =
           (case nodeAt nodes (parseInt (Some A)) of
              None \<Rightarrow> None
            | Some sourceNode \<Rightarrow>
                (case nodeAt nodes (parseInt (Some B)) of
                   None \<Rightarrow> None
                 | Some targetNode \<Rightarrow> Some (sourceNode, targetNode)))"
    unfolding twoNodes_def Let_def connect_input_matches(2)[OF A B]
    by (simp split: option.splits)
qed

lemma delete_numbers:
  assumes A: "A \<noteq> []" "list_all isDigit A"
  shows "getEnhancedMockResponse (''delete node '' @ A) nodes =
           (case nodeAt nodes (parseInt (Some A)) of
              Some node \<Rightarrow> Inr ((cmd delete_node)\<lparr>nodeId := Some (id' node)\<rparr>)
            | None \<Rightarrow>
                (case findByLabelText A nodes of
                   Some node \<Rightarrow> Inr ((cmd delete_node)\<lparr>nodeId := Some (id' node)\<rparr>)
                 | None \<Rightarrow> Inr (deleteNotFound nodes)))"
  unfolding getEnhancedMockResponse_def delete_input_normal(1)[OF A] Let_def deleteBranch_def
    delete_input_triggers[OF A(2)] delete_input_matches(2,3)[OF A]
  using delete_input_matches(1)[OF A] delete_input_normal(2)[OF A]
  by (simp split: option.splits)

lemma nodeAt_nat:
  "nodeAt nodes (Some (int i)) =
     (if 1 \<le> i \<and> i \<le> length nodes then Some (nodes ! (i - 1)) else None)"
  by (auto simp: nodeAt_def js_nth_def nat_diff_distrib')

lemmas number_string = string_of_nat_digits[THEN conjunct2] string_of_nat_digits[THEN conjunct1]

text \<open>
  Claim C7, as stated, fails.  An ordinal is read by \<open>\d+\<close>, so a minus sign is
  not part of it: "delete node -1" deletes the first node and "connect node -1 to
  node 2" connects the first node to the second.  And in the delete branch an
  ordinal that names no node is not reported as not found: "delete node 0", with a
  first node labelled "Step 0", deletes that node.
\<close>

theorem ordinal_sign_and_range_not_reported:
  "getEnhancedMockResponse ''delete node -1'' [startNode, endCallNode] =
     Inr ((cmd delete_node)\<lparr>nodeId := Some ''n1''\<rparr>) \<and>
   getEnhancedMockResponse ''connect node -1 to node 2'' [startNode, endCallNode] =
     Inr ((cmd connect_nodes)\<lparr>sourceNodeId := Some ''n1'', targetNodeId := Some ''n2''\<rparr>) \<and>
   getEnhancedMockResponse ''delete node 0''
     [\<lparr>id' = ''n1'', label = ''Step 0'', index = 0\<rparr>, endCallNode] =
     Inr ((cmd delete_node)\<lparr>nodeId := Some ''n1''\<rparr>)"
  by (simp add: rx_defs str_defs parser_defs example_nodes)

text \<open>
  Claim C7, amended.  For every list of nodes and all natural numbers \<open>i\<close> and
  \<open>j\<close>, written in decimal without sign: the input "connect node i to node j"
  gives \<open>connect_nodes\<close> from the node at index \<open>i - 1\<close> to the node at index
  \<open>j - 1\<close> when both numbers lie between 1 and the length of the list, and
  \<open>unknown\<close> otherwise; the input "delete node i" gives \<open>delete_node\<close> of the
  node at index \<open>i - 1\<close> when \<open>i\<close> lies between 1 and the length, and otherwise
  the digits are searched as the text of a label, with \<open>unknown\<close> only when that
  search finds nothing.  The lookup \<open>nodes[n - 1]\<close> itself gives the node at
  index \<open>n - 1\<close> for \<open>1 \<le> n \<le> length nodes\<close> and no node for every other
  integer.  With the nodes \<open>n1\<close> "Start" and \<open>n2\<close> "End Call", the input
  "connect node 1 to node 2" gives \<open>connect_nodes\<close> from \<open>n1\<close> to \<open>n2\<close>.
\<close>

theorem ordinal_resolution:
  "getEnhancedMockResponse (''connect node '' @ string_of_nat i @ '' to node '' @ string_of_nat j) nodes =
     (if 1 \<le> i \<and> i \<le> length nodes \<and> 1 \<le> j \<and> j \<le> length nodes
      then Inr ((cmd connect_nodes)\<lparr>sourceNodeId := Some (id' (nodes ! (i - 1))),
                                      targetNodeId := Some (id' (nodes ! (j - 1)))\<rparr>)
      else Inr ((cmd unknown)\<lparr>message :=
             Some ''Could not find the nodes to connect. Format: \"Connect node 1 to node 2\"''\<rparr>)) \<and>
   getEnhancedMockResponse (''delete node '' @ string_of_nat i) nodes =
     (if 1 \<le> i \<and> i \<le> length nodes
      then Inr ((cmd delete_node)\<lparr>nodeId := Some (id' (nodes ! (i - 1)))\<rparr>)
      else (case findByLabelText (string_of_nat i) nodes of
              Some node \<Rightarrow> Inr ((cmd delete_node)\<lparr>nodeId := Some (id' node)\<rparr>)
            | None \<Rightarrow>
                Inr ((cmd unknown)\<lparr>message :=
                  Some (''Could not find the node to delete. Available nodes: '' @
                        (if length nodes > 0 then join '', '' (numbered nodes) else ''none''))\<rparr>))) \<and>
   (1 \<le> n \<and> n \<le> int (length nodes) \<longrightarrow> nodeAt nodes (Some n) = Some (nodes ! nat (n - 1))) \<and>
   (n \<le> 0 \<or> int (length nodes) < n \<longrightarrow> nodeAt nodes (Some n) = None) \<and>
   getEnhancedMockResponse ''connect node 1 to node 2'' [startNode, endCallNode] =
     Inr ((cmd connect_nodes)\<lparr>sourceNodeId := Some ''n1'', targetNodeId := Some ''n2''\<rparr>)"
proof -
  have e: "getEnhancedMockResponse ''connect node 1 to node 2'' [startNode, endCallNode] =
     Inr ((cmd connect_nodes)\<lparr>sourceNodeId := Some ''n1'', targetNodeId := Some ''n2''\<rparr>)"
    by (simp add: rx_defs str_defs parser_defs example_nodes)
  have c: "getEnhancedMockResponse (''connect node '' @ string_of_nat i @ '' to node '' @ string_of_nat j) nodes =
     (if 1 \<le> i \<and> i \<le> length nodes \<and> 1 \<le> j \<and> j \<le> length nodes
      then Inr ((cmd connect_nodes)\<lparr>sourceNodeId := Some (id' (nodes ! (i - 1))),
                                      targetNodeId := Some (id' (nodes ! (j - 1)))\<rparr>)
      else Inr ((cmd unknown)\<lparr>message :=
             Some ''Could not find the nodes to connect. Format: \"Connect node 1 to node 2\"''\<rparr>))"
    unfolding connect_numbers(1)[OF number_string number_string] connectBranch_def
      connect_numbers(2)[OF number_string number_string] parseInt_string_of_nat nodeAt_nat
    by simp
  have d: "getEnhancedMockResponse (''delete node '' @ string_of_nat i) nodes =
     (if 1 \<le> i \<and> i \<le> length nodes
      then Inr ((cmd delete_node)\<lparr>nodeId := Some (id' (nodes ! (i - 1)))\<rparr>)
      else (case findByLabelText (string_of_nat i) nodes of
              Some node \<Rightarrow> Inr ((cmd delete_node)\<lparr>nodeId := Some (id' node)\<rparr>)
            | None \<Rightarrow>
                Inr ((cmd unknown)\<lparr>message :=
                  Some (''Could not find the node to delete. Available nodes: '' @
                        (if length nodes > 0 then join '', '' (numbered nodes) else ''none''))\<rparr>)))"
    unfolding delete_numbers[OF number_string] parseInt_string_of_nat nodeAt_nat
    by (simp add: deleteNotFound_def split: option.splits)
  have "(1 \<le> n \<and> n \<le> int (length nodes) \<longrightarrow> nodeAt nodes (Some n) = Some (nodes ! nat (n - 1))) \<and>
        (n \<le> 0 \<or> int (length nodes) < n \<longrightarrow> nodeAt nodes (Some n) = None)"
    by (auto simp: nodeAt_def js_nth_def)
  with c d e show ?thesis by blast
qed

text \<open>
  The amended claim on the two nodes of the examples: the ordinals 2 and 1 in range,
  0 and 3 out of range, for the connect branch, the delete branch and the lookup.
\<close>

theorem ordinal_resolution_witness:
  "getEnhancedMockResponse ''connect node 2 to node 1'' [startNode, endCallNode] =
     Inr ((cmd connect_nodes)\<lparr>sourceNodeId := Some ''n2'', targetNodeId := Some ''n1''\<rparr>) \<and>
   getEnhancedMockResponse ''delete node 2'' [startNode, endCallNode] =
     Inr ((cmd delete_node)\<lparr>nodeId := Some ''n2''\<rparr>) \<and>
   getEnhancedMockResponse ''connect node 0 to node 3'' [startNode, endCallNode] =
     Inr ((cmd unknown)\<lparr>message :=
       Some ''Could not find the nodes to connect. Format: \"Connect node 1 to node 2\"''\<rparr>) \<and>
   nodeAt [startNode, endCallNode] (Some 2) = Some endCallNode \<and>
   nodeAt [startNode, endCallNode] (Some 0) = None \<and>
   nodeAt [startNode, endCallNode] (Some 3) = None \<and>
   nodeAt [startNode, endCallNode] (Some (- 1)) = None"
  using ordinal_resolution [of 2 1 "[startNode, endCallNode]" 2]
        ordinal_resolution [of 0 3 "[startNode, endCallNode]" 0]
        ordinal_resolution [of 0 3 "[startNode, endCallNode]" 3]
        ordinal_resolution [of 0 3 "[startNode, endCallNode]" "- 1"]
  by (simp add: string_of_nat.simps example_nodes)

section \<open>References that name no node\<close>

text \<open>
  The input "delete node 5" on a list of fewer than five nodes: the ordinal names no
  node, and the branch goes on to search for a label by the text \<open>5\<close>.
\<close>

lemma delete_node_5:
  "length nodes < 5 \<Longrightarrow>
   getEnhancedMockResponse ''delete node 5'' nodes =
     (case findByLabelText ''5'' nodes of
        Some node \<Rightarrow> Inr ((cmd delete_node)\<lparr>nodeId := Some (id' node)\<rparr>)
      | None \<Rightarrow> Inr (deleteNotFound nodes))"
  by (simp add: rx_defs str_defs getEnhancedMockResponse_def deleteBranch_def)

lemma findByLabelText_5:
  "findByLabelText ''5'' nodes =
     (case find (\<lambda>n. toLowerCase (label n) = ''5'') nodes of
        Some n \<Rightarrow> Some n
      | None \<Rightarrow> find (\<lambda>n. includes_str (toLowerCase (label n)) ''5'') nodes)"
proof -
  have "labelHasAll [''5''] = (\<lambda>n. includes_str (toLowerCase (label n)) ''5'')"
    by (rule ext) (simp add: labelHasAll_def)
  then show ?thesis
    by (auto simp: findByLabelText_def split_ws_def stopWords_def isSpace_def Let_def
        split: option.splits)
qed

lemma label_5_includes_5: "toLowerCase (label n) = ''5'' \<Longrightarrow> includes_str (toLowerCase (label n)) ''5''"
  by simp

text \<open>
  Claim C8, as stated, fails.  On two nodes, the first labelled "Room 5", the input
  "delete node 5" gives no \<open>unknown\<close> command: it deletes that node.  And a draft
  \<open>delete_node\<close> with the empty reference, which names no node, leaves the
  validator unchanged, not as an \<open>unknown\<close> command.
\<close>

theorem not_found_not_always_reported:
  "getEnhancedMockResponse ''delete node 5''
     [\<lparr>id' = ''n1'', label = ''Room 5'', index = 0\<rparr>, endCallNode] =
     Inr ((cmd delete_node)\<lparr>nodeId := Some ''n1''\<rparr>) \<and>
   validateAndResolveCommand ((cmd delete_node)\<lparr>nodeId := Some []\<rparr>) [startNode, endCallNode] =
     (cmd delete_node)\<lparr>nodeId := Some []\<rparr>"
  by (simp add: delete_node_5 findByLabelText_5 validator_defs str_defs example_nodes)

text \<open>
  Claim C8, amended.  For every draft \<open>delete_node\<close> or \<open>update_node\<close> whose
  reference is present and not empty, is no id of the list and is found by no label,
  the validator returns an \<open>unknown\<close> command with the message
  \<open>Node "<ref>" not found. Available nodes:\<close> and the labels of all nodes,
  quoted and joined by commas; a draft whose reference is absent or empty is
  returned unchanged.  In the rule-based parser the input "delete node 5" on two
  nodes, neither with a 5 in its label, gives an \<open>unknown\<close> command with the
  message \<open>Could not find the node to delete. Available nodes:\<close> and both
  labels, numbered and quoted.
\<close>

theorem not_found_messages:
  "((type command = delete_node \<or> type command = update_node) \<and>
    nodeId command = Some ref \<and> ref \<noteq> [] \<and>
    find (\<lambda>n. id' n = ref) nodes = None \<and> nodeByLabel ref nodes = None \<longrightarrow>
      validateAndResolveCommand command nodes =
        (cmd unknown)\<lparr>message := Some (''Node \"'' @ ref @ ''\" not found. Available nodes: '' @
           join '', '' (map (\<lambda>n. ''\"'' @ label n @ ''\"'') nodes))\<rparr>) \<and>
   ((type command = delete_node \<or> type command = update_node) \<and> \<not> truthy (nodeId command) \<longrightarrow>
      validateAndResolveCommand command nodes = command) \<and>
   (\<not> includes_str (toLowerCase (label a)) ''5'' \<and> \<not> includes_str (toLowerCase (label b)) ''5'' \<longrightarrow>
      getEnhancedMockResponse ''delete node 5'' [a, b] =
        Inr ((cmd unknown)\<lparr>message := Some (''Could not find the node to delete. Available nodes: '' @
           ''1. \"'' @ label a @ ''\", 2. \"'' @ label b @ ''\"'')\<rparr>))"
proof -
  have "numbered [a, b] = [''1. \"'' @ label a @ ''\"'', ''2. \"'' @ label b @ ''\"'']"
    by (simp add: numbered_def string_of_nat.simps)
  then have "deleteNotFound [a, b] =
      (cmd unknown)\<lparr>message := Some (''Could not find the node to delete. Available nodes: '' @
           ''1. \"'' @ label a @ ''\", 2. \"'' @ label b @ ''\"'')\<rparr>"
    by (simp add: deleteNotFound_def)
  moreover have "\<not> includes_str (toLowerCase (label a)) ''5'' \<Longrightarrow>
      \<not> includes_str (toLowerCase (label b)) ''5'' \<Longrightarrow> findByLabelText ''5'' [a, b] = None"
    using label_5_includes_5 [of a] label_5_includes_5 [of b]
    by (auto simp: findByLabelText_5)
  moreover have "(type command = delete_node \<or> type command = update_node) \<Longrightarrow>
      \<not> truthy (nodeId command) \<Longrightarrow> validateAndResolveCommand command nodes = command"
    by (auto simp: validate_other resolveEnds_other)
  ultimately show ?thesis
    by (auto simp: delete_node_5 validateAndResolveCommand_def truthy_def notFoundMessage_def)
qed

text \<open>
  The messages on the two nodes of the examples, and a draft without reference
  returned as it is.
\<close>

theorem not_found_messages_witness:
  "validateAndResolveCommand ((cmd delete_node)\<lparr>nodeId := Some ''xyz''\<rparr>) [startNode, endCallNode] =
     (cmd unknown)\<lparr>message := Some ''Node \"xyz\" not found. Available nodes: \"Start\", \"End Call\"''\<rparr> \<and>
   validateAndResolveCommand (cmd update_node) [startNode, endCallNode] = cmd update_node \<and>
   getEnhancedMockResponse ''delete node 5'' [startNode, endCallNode] =
     Inr ((cmd unknown)\<lparr>message :=
       Some ''Could not find the node to delete. Available nodes: 1. \"Start\", 2. \"End Call\"''\<rparr>)"
  using not_found_messages [of "(cmd delete_node)\<lparr>nodeId := Some ''xyz''\<rparr>" "''xyz''"
          "[startNode, endCallNode]" startNode endCallNode]
        not_found_messages [of "cmd update_node" "''xyz''" "[startNode, endCallNode]"
          startNode endCallNode]
  by (simp add: validator_defs str_defs example_nodes)

section \<open>The label of a new node\<close>

text \<open>
  Claim C9, at the input where the code departs from it.  The input "add a node
  called Hello" gives \<open>add_node\<close> with the label \<open>hello\<close>, not \<open>Hello\<close>:
  the label is cut out of the lower-cased input.  The input "add a node" with two
  nodes gives the label \<open>Node 3\<close>.
\<close>

theorem add_label_is_lower_cased:
  "getEnhancedMockResponse ''add a node called Hello'' [startNode, endCallNode] =
     Inr ((cmd add_node)\<lparr>nodeLabel := Some ''hello''\<rparr>) \<and>
   getEnhancedMockResponse ''add a node'' [startNode, endCallNode] =
     Inr ((cmd add_node)\<lparr>nodeLabel := Some ''Node 3''\<rparr>)"
  by (simp add: rx_defs str_defs parser_defs example_nodes string_of_nat.simps)

section \<open>An ordinal out of range is read as a label\<close>

text \<open>
  Claim C10.  With the nodes \<open>n1\<close> "Start" and \<open>n2\<close> "Phase 5", the input
  "delete node 5" gives \<open>delete_node\<close> of \<open>n2\<close>, not \<open>unknown\<close>.  In
  general, on fewer than five nodes the input deletes the first node whose
  lower-cased label is \<open>5\<close>, else the first node whose label contains \<open>5\<close>,
  and reports not found only when there is none.
\<close>

theorem out_of_range_ordinal_read_as_label:
  "getEnhancedMockResponse ''delete node 5''
     [startNode, \<lparr>id' = ''n2'', label = ''Phase 5'', index = 1\<rparr>] =
     Inr ((cmd delete_node)\<lparr>nodeId := Some ''n2''\<rparr>) \<and>
   (length nodes < 5 \<longrightarrow>
      getEnhancedMockResponse ''delete node 5'' nodes =
        (case (case find (\<lambda>n. toLowerCase (label n) = ''5'') nodes of
                 Some node \<Rightarrow> Some node
               | None \<Rightarrow> find (\<lambda>n. includes_str (toLowerCase (label n)) ''5'') nodes) of
           Some node \<Rightarrow> Inr ((cmd delete_node)\<lparr>nodeId := Some (id' node)\<rparr>)
         | None \<Rightarrow> Inr ((cmd unknown)\<lparr>message :=
             Some (''Could not find the node to delete. Available nodes: '' @
                   (if length nodes > 0 then join '', '' (numbered nodes) else ''none''))\<rparr>)))"
proof -
  have "getEnhancedMockResponse ''delete node 5''
     [startNode, \<lparr>id' = ''n2'', label = ''Phase 5'', index = 1\<rparr>] =
     Inr ((cmd delete_node)\<lparr>nodeId := Some ''n2''\<rparr>)"
    by (simp add: delete_node_5 findByLabelText_5 str_defs example_nodes)
  then show ?thesis
    by (simp add: delete_node_5 findByLabelText_5 deleteNotFound_def split: option.splits)
qed

text \<open>The two nodes of the claim in the general statement.\<close>

theorem out_of_range_ordinal_read_as_label_witness:
  "length [startNode, \<lparr>id' = ''n2'', label = ''Phase 5'', index = 1\<rparr>] < 5 \<and>
   find (\<lambda>n. toLowerCase (label n) = ''5'')
     [startNode, \<lparr>id' = ''n2'', label = ''Phase 5'', index = 1\<rparr>] = None \<and>
   find (\<lambda>n. includes_str (toLowerCase (label n)) ''5'')
     [startNode, \<lparr>id' = ''n2'', label = ''Phase 5'', index = 1\<rparr>] =
     Some \<lparr>id' = ''n2'', label = ''Phase 5'', index = 1\<rparr>"
  using out_of_range_ordinal_read_as_label [of "[startNode, \<lparr>id' = ''n2'', label = ''Phase 5'', index = 1\<rparr>]"]
  by (simp add: str_defs example_nodes)

end
